theory Spec2Isabelle
  imports Main "HOL-Library.AList" "HOL-Library.Sublist"
begin

section \<open>Values of the dashboard: JSON data as JavaScript sees it\<close>

text \<open>
  The page \<^verbatim>\<open>src/pages/EvaluatorDashboard.tsx\<close> types every plan, review and response
  body as \<^verbatim>\<open>any\<close>, so the model keeps them untyped: a value is what \<^verbatim>\<open>JSON.parse\<close>
  can deliver, plus \<^verbatim>\<open>undefined\<close> for an absent property. An object is the list of
  its own properties, each key once, and is read through \<open>map_of\<close>. Numbers are the
  integers (identifiers and counts are the only numbers the page interprets).
\<close>

datatype json =
    JUndefined
  | JNull
  | JBool bool
  | JNum int
  | JStr string
  | JArr "json list"
  | JObj "(string \<times> json) list"

text \<open>
  A thrown exception is a value: \<open>TypeError\<close> for a property read on \<^verbatim>\<open>null\<close> or
  \<^verbatim>\<open>undefined\<close>, a call of something that is not a function, or a spread of something
  that is not iterable; \<open>RequestFailed\<close> for a rejected HTTP request, with the status
  code when a response arrived and the message of the error.
\<close>

datatype js_error =
    TypeError
  | RequestFailed "nat option" string

definition bind_js :: "js_error + 'a \<Rightarrow> ('a \<Rightarrow> js_error + 'b) \<Rightarrow> js_error + 'b" where
  "bind_js r f = (case r of Inl e \<Rightarrow> Inl e | Inr v \<Rightarrow> f v)"

text \<open>JavaScript truthiness, as \<^verbatim>\<open>||\<close>, \<^verbatim>\<open>&&\<close> and \<^verbatim>\<open>if\<close> read it.\<close>

fun truthy :: "json \<Rightarrow> bool" where
  "truthy JUndefined = False"
| "truthy JNull = False"
| "truthy (JBool b) = b"
| "truthy (JNum i) = (i \<noteq> 0)"
| "truthy (JStr s) = (s \<noteq> [])"
| "truthy (JArr xs) = True"
| "truthy (JObj fs) = True"

text \<open>
  \<^verbatim>\<open>v.k\<close> for the property names the page reads (\<^verbatim>\<open>status\<close>, \<^verbatim>\<open>reviews\<close>,
  \<^verbatim>\<open>evaluator\<close>, \<^verbatim>\<open>id\<close>, \<^verbatim>\<open>organization\<close>, \<^verbatim>\<open>results\<close>, \<^verbatim>\<open>name\<close>, ...): none
  of them is a built-in property of a string, a number or an array, so only an object
  can have one; on \<^verbatim>\<open>null\<close> and \<^verbatim>\<open>undefined\<close> the read throws.
\<close>

fun get_prop :: "json \<Rightarrow> string \<Rightarrow> js_error + json" where
  "get_prop JUndefined k = Inl TypeError"
| "get_prop JNull k = Inl TypeError"
| "get_prop (JObj fs) k = Inr (case map_of fs k of Some v \<Rightarrow> v | None \<Rightarrow> JUndefined)"
| "get_prop v k = Inr JUndefined"

text \<open>\<^verbatim>\<open>v?.k\<close>: \<^verbatim>\<open>undefined\<close> instead of a throw.\<close>

definition opt_prop :: "json \<Rightarrow> string \<Rightarrow> json" where
  "opt_prop v k = (case get_prop v k of Inl e \<Rightarrow> JUndefined | Inr x \<Rightarrow> x)"

fun isArray :: "json \<Rightarrow> bool" where
  "isArray (JArr xs) = True"
| "isArray v = False"

fun elements :: "json \<Rightarrow> json list" where
  "elements (JArr xs) = xs"
| "elements v = []"

subsection \<open>Conversion to strings\<close>

definition digit_char :: "nat \<Rightarrow> char" where
  "digit_char d = ''0123456789'' ! d"

text \<open>The decimal digits of a natural number, and a JavaScript integer as a string.\<close>

fun decimal :: "nat \<Rightarrow> string" where
  "decimal n =
     (if n div 10 = 0 then [digit_char n]
      else decimal (n div 10) @ [digit_char (n mod 10)])"

declare decimal.simps [simp del]

definition number_string :: "int \<Rightarrow> string" where
  "number_string i = (if 0 \<le> i then decimal (nat i) else CHR ''-'' # decimal (nat (- i)))"

text \<open>\<^verbatim>\<open>xs.join(',')\<close> on strings.\<close>

fun join_comma :: "string list \<Rightarrow> string" where
  "join_comma [] = []"
| "join_comma [s] = s"
| "join_comma (s # t # ss) = s @ '','' @ join_comma (t # ss)"

text \<open>\<^verbatim>\<open>String(v)\<close>, which is also what a template literal \<^verbatim>\<open>`${v}`\<close> inserts.\<close>

fun js_String :: "json \<Rightarrow> string" where
  "js_String JUndefined = ''undefined''"
| "js_String JNull = ''null''"
| "js_String (JBool b) = (if b then ''true'' else ''false'')"
| "js_String (JNum i) = number_string i"
| "js_String (JStr s) = s"
| "js_String (JArr xs) =
     join_comma (map (\<lambda>x. if x = JNull \<or> x = JUndefined then [] else js_String x) xs)"
| "js_String (JObj fs) = ''[object Object]''"

subsection \<open>Array methods whose callback may throw\<close>

fun filter_js :: "(json \<Rightarrow> js_error + bool) \<Rightarrow> json list \<Rightarrow> js_error + json list" where
  "filter_js f [] = Inr []"
| "filter_js f (x # xs) =
     bind_js (f x) (\<lambda>keep.
       bind_js (filter_js f xs) (\<lambda>ys. Inr (if keep then x # ys else ys)))"

fun some_js :: "(json \<Rightarrow> js_error + bool) \<Rightarrow> json list \<Rightarrow> js_error + bool" where
  "some_js f [] = Inr False"
| "some_js f (x # xs) =
     bind_js (f x) (\<lambda>hit. if hit then Inr True else some_js f xs)"

text \<open>\<^verbatim>\<open>xs.find(f)\<close>: the first element the callback accepts, else \<^verbatim>\<open>undefined\<close>.\<close>

fun find_js :: "(json \<Rightarrow> js_error + bool) \<Rightarrow> json list \<Rightarrow> js_error + json" where
  "find_js f [] = Inr JUndefined"
| "find_js f (x # xs) =
     bind_js (f x) (\<lambda>hit. if hit then Inr x else find_js f xs)"

fun map_js :: "(json \<Rightarrow> js_error + json) \<Rightarrow> json list \<Rightarrow> js_error + json list" where
  "map_js f [] = Inr []"
| "map_js f (x # xs) =
     bind_js (f x) (\<lambda>y. bind_js (map_js f xs) (\<lambda>ys. Inr (y # ys)))"

text \<open>\<^verbatim>\<open>xs.forEach(f)\<close> with the state the callback mutates passed along.\<close>

fun forEach_js :: "('s \<Rightarrow> json \<Rightarrow> js_error + 's) \<Rightarrow> 's \<Rightarrow> json list \<Rightarrow> js_error + 's" where
  "forEach_js f s [] = Inr s"
| "forEach_js f s (x # xs) = bind_js (f s x) (\<lambda>s'. forEach_js f s' xs)"

text \<open>
  \<^verbatim>\<open>v.filter(f)\<close> on an untyped value: only an array has the method; on anything else
  the call throws (\<^verbatim>\<open>null\<close> has no properties, the rest have no \<^verbatim>\<open>filter\<close> function).
\<close>

definition array_filter :: "(json \<Rightarrow> js_error + bool) \<Rightarrow> json \<Rightarrow> js_error + json list" where
  "array_filter f v = (case v of JArr xs \<Rightarrow> filter_js f xs | _ \<Rightarrow> Inl TypeError)"

text \<open>
  \<^verbatim>\<open>[...v]\<close>: an array gives its elements, a string its characters; nothing else that
  JSON can hold is iterable.
\<close>

definition spread_array :: "json \<Rightarrow> js_error + json list" where
  "spread_array v =
     (case v of JArr xs \<Rightarrow> Inr xs
      | JStr s \<Rightarrow> Inr (map (\<lambda>c. JStr [c]) s)
      | _ \<Rightarrow> Inl TypeError)"

text \<open>\<^verbatim>\<open>{...v}\<close>: the own enumerable properties of the value.\<close>

definition spread_object :: "json \<Rightarrow> (string \<times> json) list" where
  "spread_object v =
     (case v of JObj fs \<Rightarrow> fs
      | JArr xs \<Rightarrow> zip (map decimal [0 ..< length xs]) xs
      | JStr s \<Rightarrow> zip (map decimal [0 ..< length s]) (map (\<lambda>c. JStr [c]) s)
      | _ \<Rightarrow> [])"

subsection \<open>Identity of keys\<close>

text \<open>
  \<^verbatim>\<open>Array.prototype.includes\<close>, \<^verbatim>\<open>Map\<close> and \<^verbatim>\<open>Set\<close> compare with SameValueZero:
  primitives by value, objects and arrays by reference. Every object the page meets is
  parsed from a response of its own, so two of them are never the same reference.
\<close>

definition same_value_zero :: "json \<Rightarrow> json \<Rightarrow> bool" where
  "same_value_zero a b = (a = b \<and> \<not> isArray a \<and> (case a of JObj fs \<Rightarrow> False | _ \<Rightarrow> True))"

text \<open>\<^verbatim>\<open>currentEvaluatorIds.includes(v)\<close> for the \<^verbatim>\<open>number[]\<close> state.\<close>

definition includes_id :: "int list \<Rightarrow> json \<Rightarrow> bool" where
  "includes_id ids v = (case v of JNum n \<Rightarrow> n \<in> set ids | _ \<Rightarrow> False)"

text \<open>A \<^verbatim>\<open>Set\<close> and a \<^verbatim>\<open>Map\<close>, in insertion order.\<close>

definition set_has :: "json list \<Rightarrow> json \<Rightarrow> bool" where
  "set_has s k = list_ex (\<lambda>x. same_value_zero x k) s"

definition set_add :: "json list \<Rightarrow> json \<Rightarrow> json list" where
  "set_add s k = (if set_has s k then s else s @ [k])"

definition map_has :: "(json \<times> json) list \<Rightarrow> json \<Rightarrow> bool" where
  "map_has m k = list_ex (\<lambda>e. same_value_zero (fst e) k) m"

fun map_set :: "(json \<times> json) list \<Rightarrow> json \<Rightarrow> json \<Rightarrow> (json \<times> json) list" where
  "map_set [] k v = [(k, v)]"
| "map_set (e # m) k v =
     (if same_value_zero (fst e) k then (fst e, v) # m else e # map_set m k v)"

section \<open>The two set builders\<close>

text \<open>
  The remote store is a parameter: \<open>api_get\<close> answers a request with the body of the
  response (\<^verbatim>\<open>response.data\<close>) or with the error the request rejects with. A run of a
  query function records the requests it issued, what it wrote to the console and how
  its promise settled: \<open>Inr d\<close> for \<^verbatim>\<open>{ data: d }\<close>, \<open>Inl e\<close> for a rejection.
\<close>

record get_request =
  path :: string
  status_param :: string
  organization_param :: string
  limit_param :: nat

datatype log_entry =
    ConsoleError string js_error
  | ConsoleWarn string js_error

record query_run =
  calls :: "get_request list"
  console :: "log_entry list"
  settled :: "js_error + json list"

definition plans_request :: "string \<Rightarrow> int list \<Rightarrow> get_request" where
  "plans_request st userOrgIds =
     \<lparr>path = ''/plans/'', status_param = st,
      organization_param = join_comma (map number_string userOrgIds),
      limit_param = 50\<rparr>"

text \<open>\<^verbatim>\<open>response.data?.results || response.data || []\<close>\<close>

definition extract_plans :: "json \<Rightarrow> json" where
  "extract_plans data =
     (let results = opt_prop data ''results''
      in if truthy results then results else if truthy data then data else JArr [])"

text \<open>
  \<^verbatim>\<open>organizationsMap[String(org)] || `Organization ${org}`\<close>. The map is the state
  \<^verbatim>\<open>organizationsMap\<close>; its keys are the strings of organization ids.
\<close>

definition organizationName_of :: "(string \<rightharpoonup> json) \<Rightarrow> json \<Rightarrow> json" where
  "organizationName_of organizationsMap org =
     (let cached = (case organizationsMap (js_String org) of Some n \<Rightarrow> n | None \<Rightarrow> JUndefined)
      in if truthy cached then cached else JStr (''Organization '' @ js_String org))"

text \<open>
  The keys under which the two queries are cached (lines 92 and 144): a name followed by
  the two id lists.
\<close>

datatype key_part = KeyName string | KeyIds "int list"

definition pending_queryKey :: "int list \<Rightarrow> int list \<Rightarrow> key_part list" where
  "pending_queryKey userOrgIds currentEvaluatorIds =
     [KeyName ''evaluator-pending-plans'', KeyIds userOrgIds, KeyIds currentEvaluatorIds]"

definition reviewed_queryKey :: "int list \<Rightarrow> int list \<Rightarrow> key_part list" where
  "reviewed_queryKey userOrgIds currentEvaluatorIds =
     [KeyName ''evaluator-reviewed-plans'', KeyIds userOrgIds, KeyIds currentEvaluatorIds]"

subsection \<open>Pending plans\<close>

text \<open>The callback of \<^verbatim>\<open>plans.filter\<close> (lines 108 to 119).\<close>

definition reviewed_by :: "int list \<Rightarrow> json \<Rightarrow> js_error + bool" where
  "reviewed_by currentEvaluatorIds review =
     bind_js (get_prop review ''evaluator'') (\<lambda>ev. Inr (includes_id currentEvaluatorIds ev))"

definition pending_filter :: "int list \<Rightarrow> json \<Rightarrow> js_error + bool" where
  "pending_filter currentEvaluatorIds plan =
     bind_js (get_prop plan ''status'') (\<lambda>status.
       if status \<noteq> JStr ''SUBMITTED'' then Inr False
       else bind_js (get_prop plan ''reviews'') (\<lambda>reviews.
         if truthy reviews \<and> isArray reviews
         then bind_js (some_js (reviewed_by currentEvaluatorIds) (elements reviews))
                (\<lambda>hit. Inr (\<not> hit))
         else Inr True))"

text \<open>The callback of \<^verbatim>\<open>filteredPlans.map\<close> (lines 122 to 126).\<close>

definition with_organizationName :: "(string \<rightharpoonup> json) \<Rightarrow> json \<Rightarrow> js_error + json" where
  "with_organizationName organizationsMap plan =
     bind_js (get_prop plan ''organization'') (\<lambda>org.
       Inr (JObj (AList.update ''organizationName'' (organizationName_of organizationsMap org)
                    (spread_object plan))))"

definition pendingPlans_queryFn ::
  "(get_request \<Rightarrow> js_error + json) \<Rightarrow> (string \<rightharpoonup> json) \<Rightarrow> int list \<Rightarrow> int list \<Rightarrow> query_run" where
  "pendingPlans_queryFn api_get organizationsMap userOrgIds currentEvaluatorIds =
     (if length userOrgIds = 0 \<or> length currentEvaluatorIds = 0
      then \<lparr>calls = [], console = [], settled = Inr []\<rparr>
      else
        let request = plans_request ''SUBMITTED'' userOrgIds in
        (case bind_js (api_get request) (\<lambda>data.
                bind_js (array_filter (pending_filter currentEvaluatorIds) (extract_plans data))
                  (\<lambda>filteredPlans. map_js (with_organizationName organizationsMap) filteredPlans))
         of Inr plansWithNames \<Rightarrow>
              \<lparr>calls = [request], console = [], settled = Inr plansWithNames\<rparr>
          | Inl error \<Rightarrow>
              \<lparr>calls = [request],
               console = [ConsoleError ''Error fetching pending reviews:'' error],
               settled = Inr []\<rparr>))"

subsection \<open>Reviewed plans\<close>

text \<open>
  \<^verbatim>\<open>Promise.all\<close> of the two requests: both are issued; it resolves when both do and
  rejects with the error of the request that fails first. Which of two failing requests
  fails first is the network's choice, the parameter \<open>approved_first\<close>.
\<close>

definition promise_all ::
  "bool \<Rightarrow> js_error + json \<Rightarrow> js_error + json \<Rightarrow> js_error + json \<times> json" where
  "promise_all approved_first a b =
     (case a of
        Inr x \<Rightarrow> (case b of Inr y \<Rightarrow> Inr (x, y) | Inl e \<Rightarrow> Inl e)
      | Inl e \<Rightarrow> (case b of Inr y \<Rightarrow> Inl e | Inl e' \<Rightarrow> Inl (if approved_first then e else e')))"

text \<open>The callback of \<^verbatim>\<open>allPlans.forEach\<close> (lines 175 to 190), the \<^verbatim>\<open>Map\<close> passed along.\<close>

definition reviewed_step ::
  "(string \<rightharpoonup> json) \<Rightarrow> int list \<Rightarrow> (json \<times> json) list \<Rightarrow> json \<Rightarrow> js_error + (json \<times> json) list" where
  "reviewed_step organizationsMap currentEvaluatorIds uniquePlansMap plan =
     bind_js (get_prop plan ''reviews'') (\<lambda>reviews.
       if truthy reviews \<and> isArray reviews
       then bind_js (find_js (reviewed_by currentEvaluatorIds) (elements reviews))
         (\<lambda>currentEvaluatorReview.
            if truthy currentEvaluatorReview
            then bind_js (get_prop plan ''id'') (\<lambda>plan_key.
              if \<not> map_has uniquePlansMap plan_key
              then bind_js (get_prop plan ''organization'') (\<lambda>org.
                Inr (map_set uniquePlansMap plan_key
                  (JObj (AList.update ''currentEvaluatorReview'' currentEvaluatorReview
                    (AList.update ''organizationName'' (organizationName_of organizationsMap org)
                      (spread_object plan))))))
              else Inr uniquePlansMap)
            else Inr uniquePlansMap)
       else Inr uniquePlansMap)"

definition reviewedPlans_queryFn ::
  "(get_request \<Rightarrow> js_error + json) \<Rightarrow> bool \<Rightarrow> (string \<rightharpoonup> json) \<Rightarrow> int list \<Rightarrow> int list \<Rightarrow> query_run" where
  "reviewedPlans_queryFn api_get approved_first organizationsMap userOrgIds currentEvaluatorIds =
     (if length userOrgIds = 0 \<or> length currentEvaluatorIds = 0
      then \<lparr>calls = [], console = [], settled = Inr []\<rparr>
      else
        let approved_request = plans_request ''APPROVED'' userOrgIds;
            rejected_request = plans_request ''REJECTED'' userOrgIds in
        (case bind_js (promise_all approved_first (api_get approved_request) (api_get rejected_request))
                (\<lambda>(approved_data, rejected_data).
                   bind_js (spread_array (extract_plans approved_data)) (\<lambda>approved_plans.
                   bind_js (spread_array (extract_plans rejected_data)) (\<lambda>rejected_plans.
                   bind_js (forEach_js (reviewed_step organizationsMap currentEvaluatorIds) []
                              (approved_plans @ rejected_plans))
                     (\<lambda>uniquePlansMap. Inr (map snd uniquePlansMap)))))
         of Inr plans \<Rightarrow>
              \<lparr>calls = [approved_request, rejected_request], console = [], settled = Inr plans\<rparr>
          | Inl error \<Rightarrow>
              \<lparr>calls = [approved_request, rejected_request],
               console = [ConsoleError ''Error fetching reviewed plans:'' error],
               settled = Inr []\<rparr>))"

section \<open>Statistics\<close>

text \<open>
  The \<^verbatim>\<open>useMemo\<close> body (lines 207 to 240). A query that has not delivered yet is
  \<^verbatim>\<open>undefined\<close>, here \<open>None\<close>; \<^verbatim>\<open>?.\<close> then skips the loop.
\<close>

record statistics_counts =
  pendingCount :: nat
  reviewedCount :: nat
  approvedCount :: nat
  rejectedCount :: nat

definition count_pending :: "json list \<Rightarrow> json \<Rightarrow> js_error + json list" where
  "count_pending uniquePendingPlans p =
     bind_js (get_prop p ''status'') (\<lambda>status.
       if status = JStr ''SUBMITTED''
       then bind_js (get_prop p ''id'') (\<lambda>i. Inr (set_add uniquePendingPlans i))
       else Inr uniquePendingPlans)"

definition count_reviewed ::
  "json list \<times> json list \<times> json list \<Rightarrow> json \<Rightarrow> js_error + json list \<times> json list \<times> json list" where
  "count_reviewed sets p =
     (case sets of (uniqueReviewedPlans, uniqueApprovedPlans, uniqueRejectedPlans) \<Rightarrow>
       bind_js (get_prop p ''status'') (\<lambda>status.
         if status = JStr ''APPROVED'' \<or> status = JStr ''REJECTED''
         then bind_js (get_prop p ''id'') (\<lambda>i.
           let reviewed = set_add uniqueReviewedPlans i in
           if status = JStr ''APPROVED''
           then Inr (reviewed, set_add uniqueApprovedPlans i, uniqueRejectedPlans)
           else if status = JStr ''REJECTED''
           then Inr (reviewed, uniqueApprovedPlans, set_add uniqueRejectedPlans i)
           else Inr (reviewed, uniqueApprovedPlans, uniqueRejectedPlans))
         else Inr sets))"

definition statistics :: "json list option \<Rightarrow> json list option \<Rightarrow> js_error + statistics_counts" where
  "statistics pendingPlans reviewedPlans =
     bind_js (case pendingPlans of None \<Rightarrow> Inr []
              | Some data \<Rightarrow> forEach_js count_pending [] data) (\<lambda>uniquePendingPlans.
     bind_js (case reviewedPlans of None \<Rightarrow> Inr ([], [], [])
              | Some data \<Rightarrow> forEach_js count_reviewed ([], [], []) data)
       (\<lambda>(uniqueReviewedPlans, uniqueApprovedPlans, uniqueRejectedPlans).
          Inr \<lparr>pendingCount = length uniquePendingPlans,
               reviewedCount = length uniqueReviewedPlans,
               approvedCount = length uniqueApprovedPlans,
               rejectedCount = length uniqueRejectedPlans\<rparr>))"

section \<open>The state of the page\<close>

text \<open>
  The \<^verbatim>\<open>useState\<close> cells (lines 15 to 25) with their initial values, and next to them
  what the page does to the outside: the route it navigated to, the console, the query
  keys handed to \<^verbatim>\<open>invalidateQueries\<close> and the timers started with \<^verbatim>\<open>setTimeout\<close>
  (the delay in milliseconds and what the callback does).
\<close>

datatype timer_callback = ClearSuccess | ClearError

record dashboard_state =
  selectedPlan :: json
  showReviewModal :: bool
  error :: "string option"
  success :: "string option"
  userOrgIds :: "int list"
  isAuthChecked :: bool
  isEvaluatorOnly :: bool
  currentEvaluatorIds :: "int list"
  organizationsMap :: "string \<rightharpoonup> json"
  isInitialLoad :: bool
  navigated :: "string option"
  logged :: "log_entry list"
  invalidated :: "key_part list list"
  timers :: "(nat \<times> timer_callback) list"

definition initial_state :: dashboard_state where
  "initial_state =
     \<lparr>selectedPlan = JNull, showReviewModal = False, error = None, success = None,
      userOrgIds = [], isAuthChecked = False, isEvaluatorOnly = False,
      currentEvaluatorIds = [], organizationsMap = Map.empty, isInitialLoad = True,
      navigated = None, logged = [], invalidated = [], timers = []\<rparr>"

text \<open>
  \<^verbatim>\<open>invalidateQueries({ queryKey: k })\<close> marks stale every cached query whose key begins
  with \<^verbatim>\<open>k\<close>.
\<close>

definition marked_stale :: "dashboard_state \<Rightarrow> key_part list \<Rightarrow> bool" where
  "marked_stale st queryKey = list_ex (\<lambda>k. prefix k queryKey) (invalidated st)"

fun run_timer :: "timer_callback \<Rightarrow> dashboard_state \<Rightarrow> dashboard_state" where
  "run_timer ClearSuccess st = st\<lparr>success := None\<rparr>"
| "run_timer ClearError st = st\<lparr>error := None\<rparr>"

section \<open>Identity and organization names\<close>

text \<open>
  A role record of \<^verbatim>\<open>authData.userOrganizations\<close>; its \<^verbatim>\<open>id\<close> is the field \<open>id_uo\<close>.
\<close>

record user_organization =
  id_uo :: int
  organization :: int
  role :: string

record auth_data =
  isAuthenticated :: bool
  userOrganizations :: "user_organization list"

text \<open>Lines 55 to 58, on the list of the caller's roles.\<close>

definition isOnlyEvaluator :: "string list \<Rightarrow> bool" where
  "isOnlyEvaluator roles =
     (''EVALUATOR'' \<in> set roles \<and> ''ADMIN'' \<notin> set roles \<and> ''PLANNER'' \<notin> set roles)"

text \<open>The callback of \<^verbatim>\<open>orgsResponse.data.forEach\<close> (lines 66 to 70).\<close>

definition add_org :: "(string \<rightharpoonup> json) \<Rightarrow> json \<Rightarrow> js_error + (string \<rightharpoonup> json)" where
  "add_org orgMap org =
     (if truthy (opt_prop org ''id'')
      then bind_js (get_prop org ''id'') (\<lambda>i.
           bind_js (get_prop org ''name'') (\<lambda>n. Inr (orgMap(js_String i \<mapsto> n))))
      else Inr orgMap)"

text \<open>
  The inner \<^verbatim>\<open>try\<close> of lines 62 to 75; \<open>orgs_result\<close> is how \<^verbatim>\<open>organizations.getAll()\<close>
  settled.
\<close>

definition prefetch_organizations :: "js_error + json \<Rightarrow> dashboard_state \<Rightarrow> dashboard_state" where
  "prefetch_organizations orgs_result st =
     (case bind_js orgs_result (\<lambda>orgsResponse.
             let data = opt_prop orgsResponse ''data'' in
             if truthy data \<and> isArray data
             then bind_js (forEach_js add_org Map.empty (elements data))
                    (\<lambda>orgMap. Inr (st\<lparr>organizationsMap := orgMap\<rparr>))
             else Inr st)
      of Inr st' \<Rightarrow> st'
       | Inl orgError \<Rightarrow>
           st\<lparr>logged := logged st @ [ConsoleWarn ''Failed to pre-fetch organizations:'' orgError]\<rparr>)"

text \<open>
  \<^verbatim>\<open>checkPermissions\<close> (lines 29 to 85). \<open>isEvaluator\<close> is imported from
  \<^verbatim>\<open>../types/user\<close> and is a parameter here; \<open>current_user\<close> is how
  \<^verbatim>\<open>auth.getCurrentUser()\<close> settled.
\<close>

definition checkPermissions ::
  "(user_organization list \<Rightarrow> bool) \<Rightarrow> js_error + auth_data \<Rightarrow> js_error + json
     \<Rightarrow> dashboard_state \<Rightarrow> dashboard_state" where
  "checkPermissions isEvaluator current_user orgs_result st =
     (case current_user of
        Inl err \<Rightarrow>
          st\<lparr>logged := logged st @ [ConsoleError ''Failed to check permissions:'' err],
             error := Some ''Failed to verify your permissions'',
             isInitialLoad := False\<rparr>
      | Inr authData \<Rightarrow>
          if \<not> isAuthenticated authData
          then st\<lparr>navigated := Some ''/login'', isInitialLoad := False\<rparr>
          else if \<not> isEvaluator (userOrganizations authData)
          then st\<lparr>error := Some ''You do not have permission to access the evaluator dashboard'',
                  isInitialLoad := False\<rparr>
          else
            let st1 =
              (if length (userOrganizations authData) > 0
               then prefetch_organizations orgs_result
                      (st\<lparr>userOrgIds := map organization (userOrganizations authData),
                          currentEvaluatorIds :=
                            map id_uo (filter (\<lambda>org. role org = ''EVALUATOR'')
                                         (userOrganizations authData)),
                          isEvaluatorOnly :=
                            isOnlyEvaluator (map role (userOrganizations authData))\<rparr>)
               else st)
            in st1\<lparr>isAuthChecked := True, isInitialLoad := False\<rparr>)"

text \<open>\<^verbatim>\<open>getOrganizationName\<close> (lines 340 to 357).\<close>

definition getOrganizationName :: "(string \<rightharpoonup> json) \<Rightarrow> json \<Rightarrow> js_error + json" where
  "getOrganizationName orgsMap plan =
     bind_js (get_prop plan ''organizationName'') (\<lambda>organizationName.
       if truthy organizationName \<and> organizationName \<noteq> JStr ''Unknown Organization''
       then Inr organizationName
       else bind_js (get_prop plan ''organization_name'') (\<lambda>organization_name.
         if truthy organization_name then Inr organization_name
         else bind_js (get_prop plan ''organization'') (\<lambda>org.
           let orgId = js_String org;
               cached = (case orgsMap orgId of Some n \<Rightarrow> n | None \<Rightarrow> JUndefined)
           in if truthy cached then Inr cached
              else Inr (JStr (''Organization '' @ js_String org)))))"

section \<open>Submitting a review\<close>

datatype review_status = APPROVED | REJECTED

fun status_string :: "review_status \<Rightarrow> string" where
  "status_string APPROVED = ''APPROVED''"
| "status_string REJECTED = ''REJECTED''"

text \<open>
  The argument of \<^verbatim>\<open>mutationFn\<close>. The page passes \<^verbatim>\<open>selectedPlan.id\<close> as \<^verbatim>\<open>planId\<close>;
  \<open>feedback\<close> is \<open>None\<close> when the form left it \<^verbatim>\<open>undefined\<close>.
\<close>

record review_data =
  planId :: json
  status :: review_status
  feedback :: "string option"

record post_request =
  url :: string
  body :: json

record mutation_run =
  posts :: "post_request list"
  mutation_log :: "log_entry list"
  mutation_settled :: "js_error + json"

text \<open>
  \<^verbatim>\<open>mutationFn\<close> (lines 244 to 264); \<open>now\<close> is what \<^verbatim>\<open>new Date().getTime()\<close> reads,
  \<open>api_post\<close> the decision endpoint.
\<close>

definition mutationFn ::
  "(post_request \<Rightarrow> js_error + json) \<Rightarrow> nat \<Rightarrow> review_data \<Rightarrow> mutation_run" where
  "mutationFn api_post now reviewData =
     (let reviewPayload =
            JObj [(''status'', JStr (status_string (status reviewData))),
                  (''feedback'',
                     JStr (case feedback reviewData of
                             None \<Rightarrow> [] | Some f \<Rightarrow> if f \<noteq> [] then f else []))];
          timestamp = now;
          request =
            (if status reviewData = APPROVED
             then \<lparr>url = ''/plans/'' @ js_String (planId reviewData) @ ''/approve/?_=''
                          @ decimal timestamp,
                   body = reviewPayload\<rparr>
             else \<lparr>url = ''/plans/'' @ js_String (planId reviewData) @ ''/reject/?_=''
                          @ decimal timestamp,
                   body = reviewPayload\<rparr>)
      in case api_post request of
           Inr response \<Rightarrow>
             \<lparr>posts = [request], mutation_log = [], mutation_settled = Inr response\<rparr>
         | Inl err \<Rightarrow>
             \<lparr>posts = [request],
              mutation_log = [ConsoleError ''Review submission failed:'' err],
              mutation_settled = Inl err\<rparr>)"

text \<open>\<^verbatim>\<open>onSuccess\<close> (lines 265 to 272).\<close>

definition onSuccess :: "dashboard_state \<Rightarrow> dashboard_state" where
  "onSuccess st =
     st\<lparr>invalidated := invalidated st @ [[KeyName ''evaluator-pending-plans''],
                                            [KeyName ''evaluator-reviewed-plans'']],
        showReviewModal := False,
        selectedPlan := JNull,
        success := Some ''Plan review submitted successfully'',
        timers := timers st @ [(3000, ClearSuccess)]\<rparr>"

text \<open>
  \<^verbatim>\<open>onError\<close> (lines 273 to 277). What \<^verbatim>\<open>error.message\<close> reads for an error is the
  parameter \<open>message\<close>.
\<close>

definition onError :: "(js_error \<Rightarrow> string) \<Rightarrow> js_error \<Rightarrow> dashboard_state \<Rightarrow> dashboard_state" where
  "onError message err st =
     st\<lparr>logged := logged st @ [ConsoleError ''Review mutation error:'' err],
        error := Some (if message err \<noteq> [] then message err else ''Failed to submit review''),
        timers := timers st @ [(5000, ClearError)]\<rparr>"

text \<open>
  \<^verbatim>\<open>useMutation\<close>: run \<^verbatim>\<open>mutationFn\<close>, then \<^verbatim>\<open>onSuccess\<close> when it resolved and
  \<^verbatim>\<open>onError\<close> when it rejected.
\<close>

definition reviewMutation ::
  "(post_request \<Rightarrow> js_error + json) \<Rightarrow> (js_error \<Rightarrow> string) \<Rightarrow> nat \<Rightarrow> review_data
     \<Rightarrow> dashboard_state \<Rightarrow> mutation_run \<times> dashboard_state" where
  "reviewMutation api_post message now reviewData st =
     (let run = mutationFn api_post now reviewData
      in (run, case mutation_settled run of
                 Inr response \<Rightarrow> onSuccess (st\<lparr>logged := logged st @ mutation_log run\<rparr>)
               | Inl err \<Rightarrow> onError message err (st\<lparr>logged := logged st @ mutation_log run\<rparr>)))"

section \<open>What the specification calls things\<close>

text \<open>
  A submission's Decision Records are the elements of its \<^verbatim>\<open>reviews\<close> array; an absent
  collection, \<^verbatim>\<open>null\<close> or anything that is not an array has none. A record's reviewer
  id is its \<^verbatim>\<open>evaluator\<close>.
\<close>

definition decision_records :: "json \<Rightarrow> json list" where
  "decision_records plan = elements (opt_prop plan ''reviews'')"

definition by_caller :: "int list \<Rightarrow> json \<Rightarrow> bool" where
  "by_caller reviewerRecordIds record = (opt_prop record ''evaluator'' \<in> JNum ` set reviewerRecordIds)"

text \<open>
  A fetched element has the shape of a submission when it is an object and every element
  of its Decision Records is one too.
\<close>

fun is_object :: "json \<Rightarrow> bool" where
  "is_object (JObj fs) = True"
| "is_object v = False"

definition submission_shaped :: "json \<Rightarrow> bool" where
  "submission_shaped plan = (is_object plan \<and> list_all is_object (decision_records plan))"

text \<open>The pending set of the specification: status Submitted and no record of the caller's.\<close>

definition awaits_decision :: "int list \<Rightarrow> json \<Rightarrow> bool" where
  "awaits_decision reviewerRecordIds plan =
     (opt_prop plan ''status'' = JStr ''SUBMITTED''
      \<and> \<not> list_ex (by_caller reviewerRecordIds) (decision_records plan))"

text \<open>The caller's own decision: the first record of the caller's, in the records' order.\<close>

definition own_decision :: "int list \<Rightarrow> json \<Rightarrow> json option" where
  "own_decision reviewerRecordIds plan = find (by_caller reviewerRecordIds) (decision_records plan)"

text \<open>The entries the two builders make of a plan: the object literals of lines 122 and 182.\<close>

definition pending_entry :: "(string \<rightharpoonup> json) \<Rightarrow> json \<Rightarrow> json" where
  "pending_entry orgsMap plan =
     JObj (AList.update ''organizationName''
             (organizationName_of orgsMap (opt_prop plan ''organization''))
             (spread_object plan))"

definition reviewed_entry :: "(string \<rightharpoonup> json) \<Rightarrow> json \<Rightarrow> json \<Rightarrow> json" where
  "reviewed_entry orgsMap plan review =
     JObj (AList.update ''currentEvaluatorReview'' review
            (AList.update ''organizationName''
               (organizationName_of orgsMap (opt_prop plan ''organization''))
               (spread_object plan)))"

text \<open>A submission is identified by its \<^verbatim>\<open>id\<close>; identifiers are primitive values.\<close>

definition plan_id :: "json \<Rightarrow> json" where
  "plan_id plan = opt_prop plan ''id''"

definition primitive :: "json \<Rightarrow> bool" where
  "primitive v = (\<not> isArray v \<and> \<not> is_object v)"

text \<open>The decided set of the specification: some Decision Record is the caller's.\<close>

definition decided_by_caller :: "int list \<Rightarrow> json \<Rightarrow> bool" where
  "decided_by_caller reviewerRecordIds plan = (own_decision reviewerRecordIds plan \<noteq> None)"

text \<open>
  What one round of the loop over \<^verbatim>\<open>allPlans\<close> does to the \<^verbatim>\<open>Map\<close> when the plan is a
  submission: nothing without a decision of the caller's or when the id is already a key,
  else a new last entry.
\<close>

definition reviewed_keep ::
  "(string \<rightharpoonup> json) \<Rightarrow> int list \<Rightarrow> (json \<times> json) list \<Rightarrow> json \<Rightarrow> (json \<times> json) list" where
  "reviewed_keep orgsMap ids uniquePlansMap plan =
     (case own_decision ids plan of
        None \<Rightarrow> uniquePlansMap
      | Some review \<Rightarrow>
          if map_has uniquePlansMap (plan_id plan) then uniquePlansMap
          else uniquePlansMap @ [(plan_id plan, reviewed_entry orgsMap plan review)])"

text \<open>
  Keys that a \<^verbatim>\<open>Map\<close> or \<^verbatim>\<open>Set\<close> tells apart pairwise, and the invariant of
  \<^verbatim>\<open>uniquePlansMap\<close>: every value is an object filed under its own id, and the keys are
  told apart.
\<close>

definition different_keys :: "json list \<Rightarrow> bool" where
  "different_keys ks = sorted_wrt (\<lambda>a b. \<not> same_value_zero a b) ks"

definition map_inv :: "(json \<times> json) list \<Rightarrow> bool" where
  "map_inv M = (list_all (\<lambda>(k, e). is_object e \<and> plan_id e = k) M \<and> different_keys (map fst M))"

text \<open>The status partitions the statistics count.\<close>

definition has_status :: "string \<Rightarrow> json \<Rightarrow> bool" where
  "has_status st plan = (opt_prop plan ''status'' = JStr st)"

definition decided_status :: "json \<Rightarrow> bool" where
  "decided_status plan = (has_status ''APPROVED'' plan \<or> has_status ''REJECTED'' plan)"

text \<open>
  Two answers of the store are alike for the builders when they are the same error or
  bodies from which the same list is extracted.
\<close>

definition same_answer :: "js_error + json \<Rightarrow> js_error + json \<Rightarrow> bool" where
  "same_answer a b =
     (case a of
        Inl e \<Rightarrow> b = Inl e
      | Inr x \<Rightarrow> (case b of Inl e \<Rightarrow> False | Inr y \<Rightarrow> extract_plans x = extract_plans y))"


text \<open>
  Modelled from the spec: \<^verbatim>\<open>isEvaluator\<close> of \<^verbatim>\<open>../types/user\<close> is not among the sources.
  Section 4.1 of the specification denies access to a caller who holds no reviewer role
  record in any organization.
\<close>

definition holds_evaluator_role :: "user_organization list \<Rightarrow> bool" where
  "holds_evaluator_role userOrgs = list_ex (\<lambda>org. role org = ''EVALUATOR'') userOrgs"


section \<open>Scenarios\<close>

text \<open>Plans of the caller with reviewer record 7 in organization 3.\<close>

definition scenario_plan_other :: json where
  "scenario_plan_other =
     JObj [(''id'', JNum 1), (''organization'', JNum 3), (''status'', JStr ''SUBMITTED''),
           (''reviews'', JArr [JObj [(''evaluator'', JNum 9), (''status'', JStr ''APPROVED'')]])]"

definition scenario_plan_own :: json where
  "scenario_plan_own =
     JObj [(''id'', JNum 2), (''organization'', JNum 3), (''status'', JStr ''SUBMITTED''),
           (''reviews'', JArr [JObj [(''evaluator'', JNum 7), (''status'', JStr ''APPROVED'')]])]"

definition scenario_plan_fresh :: json where
  "scenario_plan_fresh =
     JObj [(''id'', JNum 4), (''organization'', JNum 3), (''status'', JStr ''SUBMITTED'')]"

text \<open>
  Submission 5, approved by the caller with feedback \<^verbatim>\<open>ok\<close>, and a stale copy of it as
  the rejected fetch may still deliver it.
\<close>

definition scenario_review_ok :: json where
  "scenario_review_ok =
     JObj [(''evaluator'', JNum 7), (''status'', JStr ''APPROVED''), (''feedback'', JStr ''ok'')]"

definition scenario_plan_approved :: json where
  "scenario_plan_approved =
     JObj [(''id'', JNum 5), (''organization'', JNum 3), (''status'', JStr ''APPROVED''),
           (''reviews'', JArr [scenario_review_ok])]"

definition scenario_plan_stale :: json where
  "scenario_plan_stale =
     JObj [(''id'', JNum 5), (''organization'', JNum 3), (''status'', JStr ''REJECTED''),
           (''reviews'', JArr [JObj [(''evaluator'', JNum 7), (''status'', JStr ''REJECTED''),
                                    (''feedback'', JStr ''stale'')]])]"

definition scenario_store :: "get_request \<Rightarrow> js_error + json" where
  "scenario_store request =
     (if status_param request = ''APPROVED'' then Inr (JObj [(''results'', JArr [scenario_plan_approved])])
      else if status_param request = ''REJECTED'' then Inr (JArr [scenario_plan_stale])
      else Inr (JArr [scenario_plan_other, scenario_plan_own, scenario_plan_fresh]))"

text \<open>
  A store whose approved fetch delivers a plan that is back in status \<^verbatim>\<open>SUBMITTED\<close>
  and still carries the caller's earlier review.
\<close>

definition resubmitted_store :: "get_request \<Rightarrow> js_error + json" where
  "resubmitted_store request =
     (if status_param request = ''APPROVED'' then Inr (JArr [scenario_plan_own])
      else Inr (JArr []))"

text \<open>A store that answers every request with a server error.\<close>

definition failing_store :: "get_request \<Rightarrow> js_error + json" where
  "failing_store request = Inl (RequestFailed (Some 500) ''Request failed with status code 500'')"

text \<open>
  Stores for the shapes of a body: an envelope without \<^verbatim>\<open>results\<close> for everything but the
  rejected fetch, the paginated envelope, the bare array, \<^verbatim>\<open>null\<close>, and an empty array for
  the approved fetch.
\<close>

definition unrecognised_store :: "get_request \<Rightarrow> js_error + json" where
  "unrecognised_store request =
     (if status_param request = ''REJECTED'' then Inr (JArr [scenario_plan_stale])
      else Inr (JObj [(''count'', JNum 0)]))"

definition wrapped_store :: "get_request \<Rightarrow> js_error + json" where
  "wrapped_store request = Inr (JObj [(''count'', JNum 1), (''results'', JArr [scenario_plan_approved])])"

definition bare_store :: "get_request \<Rightarrow> js_error + json" where
  "bare_store request = Inr (JArr [scenario_plan_approved])"

definition null_store :: "get_request \<Rightarrow> js_error + json" where
  "null_store request = Inr JNull"

definition empty_approved_store :: "get_request \<Rightarrow> js_error + json" where
  "empty_approved_store request =
     (if status_param request = ''APPROVED'' then Inr (JArr [])
      else Inr (JArr [scenario_plan_stale]))"

text \<open>
  The caller of the scenarios, reviewer record 7 in organization 3; the same caller with a
  second role record, an \<^verbatim>\<open>ADMIN\<close>'s in organization 4; and a decision endpoint that
  accepts every review.
\<close>

definition scenario_evaluator :: auth_data where
  "scenario_evaluator =
     \<lparr>isAuthenticated = True,
      userOrganizations = [\<lparr>id_uo = 7, organization = 3, role = ''EVALUATOR''\<rparr>]\<rparr>"


definition accepting_endpoint :: "post_request \<Rightarrow> js_error + json" where
  "accepting_endpoint request = Inr (JObj [(''detail'', JStr ''ok'')])"



section \<open>The pending-set builder on well-shaped fetches\<close>

lemma bind_js_Inl [simp]: "bind_js (Inl e) f = Inl e"
  by (simp add: bind_js_def)

lemma bind_js_Inr [simp]: "bind_js (Inr v) f = f v"
  by (simp add: bind_js_def)

lemma get_prop_object: "is_object v \<Longrightarrow> get_prop v k = Inr (opt_prop v k)"
  by (cases v) (simp_all add: opt_prop_def)

lemma includes_id_iff: "includes_id ids v = (v \<in> JNum ` set ids)"
  by (cases v) (auto simp: includes_id_def)

lemma reviewed_by_object: "is_object r \<Longrightarrow> reviewed_by ids r = Inr (by_caller ids r)"
  by (simp add: reviewed_by_def get_prop_object includes_id_iff by_caller_def)

lemma some_js_objects:
  "list_all is_object rs \<Longrightarrow> some_js (reviewed_by ids) rs = Inr (list_ex (by_caller ids) rs)"
  by (induction rs) (simp_all add: reviewed_by_object)

lemma find_js_objects:
  "list_all is_object rs \<Longrightarrow>
   find_js (reviewed_by ids) rs =
     Inr (case find (by_caller ids) rs of None \<Rightarrow> JUndefined | Some r \<Rightarrow> r)"
  by (induction rs) (simp_all add: reviewed_by_object)

lemma isArray_truthy: "isArray v \<Longrightarrow> truthy v"
  by (cases v) simp_all

lemma elements_not_array: "\<not> isArray v \<Longrightarrow> elements v = []"
  by (cases v) simp_all

lemma pending_filter_shaped:
  assumes "submission_shaped p"
  shows "pending_filter ids p = Inr (awaits_decision ids p)"
proof -
  from assms have obj: "is_object p" and recs: "list_all is_object (elements (opt_prop p ''reviews''))"
    by (simp_all add: submission_shaped_def decision_records_def)
  show ?thesis
  proof (cases "isArray (opt_prop p ''reviews'')")
    case True
    then show ?thesis
      using recs
      by (simp add: pending_filter_def get_prop_object [OF obj] awaits_decision_def
          decision_records_def some_js_objects isArray_truthy)
  next
    case False
    then show ?thesis
      by (simp add: pending_filter_def get_prop_object [OF obj] awaits_decision_def
          decision_records_def elements_not_array)
  qed
qed

lemma filter_js_total:
  "\<forall>x \<in> set xs. f x = Inr (g x) \<Longrightarrow> filter_js f xs = Inr (filter g xs)"
  by (induction xs) simp_all

lemma map_js_total:
  "\<forall>x \<in> set xs. f x = Inr (g x) \<Longrightarrow> map_js f xs = Inr (map g xs)"
  by (induction xs) simp_all

lemma with_organizationName_object:
  "is_object p \<Longrightarrow> with_organizationName m p = Inr (pending_entry m p)"
  by (simp add: with_organizationName_def pending_entry_def get_prop_object)

lemma awaits_decision_object: "awaits_decision ids p \<Longrightarrow> is_object p"
  by (cases p) (simp_all add: awaits_decision_def opt_prop_def)

lemma pending_run:
  assumes "orgIds \<noteq> []" and "evalIds \<noteq> []"
    and "api_get (plans_request ''SUBMITTED'' orgIds) = Inr resp"
    and "extract_plans resp = JArr ps"
    and "list_all submission_shaped ps"
  shows "pendingPlans_queryFn api_get m orgIds evalIds =
           \<lparr>calls = [plans_request ''SUBMITTED'' orgIds], console = [],
            settled = Inr (map (pending_entry m) (filter (awaits_decision evalIds) ps))\<rparr>"
proof -
  have f: "filter_js (pending_filter evalIds) ps = Inr (filter (awaits_decision evalIds) ps)"
    using assms(5) by (intro filter_js_total) (simp add: list_all_iff pending_filter_shaped)
  have m: "map_js (with_organizationName m) (filter (awaits_decision evalIds) ps) =
             Inr (map (pending_entry m) (filter (awaits_decision evalIds) ps))"
    by (intro map_js_total) (auto simp: with_organizationName_object awaits_decision_object)
  show ?thesis
    using assms(1-4) by (simp add: pendingPlans_queryFn_def Let_def array_filter_def f m)
qed

lemma opt_prop_update:
  "opt_prop (JObj (AList.update k v fs)) k' = (if k' = k then v else opt_prop (JObj fs) k')"
  by (simp add: opt_prop_def update_conv')

lemma spread_object_object: "is_object p \<Longrightarrow> JObj (spread_object p) = p"
  by (cases p) (simp_all add: spread_object_def)

lemma opt_prop_pending_entry:
  "is_object p \<Longrightarrow> k \<noteq> ''organizationName'' \<Longrightarrow> opt_prop (pending_entry m p) k = opt_prop p k"
  by (simp add: pending_entry_def opt_prop_update spread_object_object)

lemma awaits_decision_pending_entry:
  "is_object p \<Longrightarrow> awaits_decision ids (pending_entry m p) = awaits_decision ids p"
  by (simp add: awaits_decision_def decision_records_def opt_prop_pending_entry)

lemma awaits_decision_iff:
  "awaits_decision ids p =
     (opt_prop p ''status'' = JStr ''SUBMITTED''
      \<and> (\<forall>r \<in> set (decision_records p). opt_prop r ''evaluator'' \<notin> JNum ` set ids))"
  by (auto simp: awaits_decision_def list_ex_iff by_caller_def)

lemma pending_entry_in_filtered:
  assumes "list_all is_object ps" and "p \<in> set ps"
  shows "(pending_entry m p \<in> set (map (pending_entry m) (filter (awaits_decision ids) ps)))
           = awaits_decision ids p"
proof
  assume "pending_entry m p \<in> set (map (pending_entry m) (filter (awaits_decision ids) ps))"
  then obtain q where q: "q \<in> set ps" "awaits_decision ids q" "pending_entry m q = pending_entry m p"
    by auto
  from assms q(1) have "is_object p" "is_object q"
    by (simp_all add: list_all_iff)
  then have "awaits_decision ids p = awaits_decision ids (pending_entry m q)"
    using q(3) by (simp add: awaits_decision_pending_entry)
  also have "\<dots> = awaits_decision ids q"
    using \<open>is_object q\<close> by (simp add: awaits_decision_pending_entry)
  finally show "awaits_decision ids p" using q(2) by simp
next
  assume "awaits_decision ids p"
  with assms(2) show "pending_entry m p \<in> set (map (pending_entry m) (filter (awaits_decision ids) ps))"
    by auto
qed

lemma shaped_objects: "list_all submission_shaped ps \<Longrightarrow> list_all is_object ps"
  by (simp add: list_all_iff submission_shaped_def)

section \<open>The decided-set builder on well-shaped fetches\<close>

lemma same_value_zero_primitive: "primitive k \<Longrightarrow> same_value_zero x k = (x = k)"
  by (cases k) (auto simp: same_value_zero_def primitive_def)

lemma map_has_primitive: "primitive k \<Longrightarrow> map_has M k = (k \<in> fst ` set M)"
  by (auto simp: map_has_def list_ex_iff same_value_zero_primitive)

lemma map_set_fresh: "\<not> map_has M k \<Longrightarrow> map_set M k v = M @ [(k, v)]"
  by (induction M) (simp_all add: map_has_def)

lemma by_caller_object: "by_caller ids r \<Longrightarrow> is_object r"
  by (cases r) (auto simp: by_caller_def opt_prop_def)

lemma is_object_truthy: "is_object v \<Longrightarrow> truthy v"
  by (cases v) simp_all

lemma reviewed_step_shaped:
  assumes "submission_shaped p"
  shows "reviewed_step m ids M p = Inr (reviewed_keep m ids M p)"
proof -
  from assms have obj: "is_object p" and recs: "list_all is_object (elements (opt_prop p ''reviews''))"
    by (simp_all add: submission_shaped_def decision_records_def)
  show ?thesis
  proof (cases "own_decision ids p")
    case None
    then have nf: "find (by_caller ids) (elements (opt_prop p ''reviews'')) = None"
      by (simp add: own_decision_def decision_records_def)
    show ?thesis
      using recs None
      by (simp add: reviewed_step_def reviewed_keep_def get_prop_object [OF obj]
          find_js_objects nf)
  next
    case (Some r)
    then have f: "find (by_caller ids) (elements (opt_prop p ''reviews'')) = Some r"
      by (simp add: own_decision_def decision_records_def)
    then have "by_caller ids r"
      by (auto simp: find_Some_iff)
    then have tr: "truthy r"
      by (simp add: by_caller_object is_object_truthy)
    have arr: "isArray (opt_prop p ''reviews'')"
      using f by (cases "opt_prop p ''reviews''") simp_all
    show ?thesis
      using recs Some tr arr
      by (simp add: reviewed_step_def reviewed_keep_def get_prop_object [OF obj]
          find_js_objects f isArray_truthy plan_id_def reviewed_entry_def map_set_fresh)
  qed
qed

lemma forEach_js_total:
  "\<forall>x \<in> set xs. \<forall>s. f s x = Inr (g s x) \<Longrightarrow> forEach_js f s xs = Inr (foldl g s xs)"
  by (induction xs arbitrary: s) simp_all

lemma spread_array_JArr [simp]: "spread_array (JArr xs) = Inr xs"
  by (simp add: spread_array_def)

lemma reviewed_run:
  assumes "orgIds \<noteq> []" and "evalIds \<noteq> []"
    and "api_get (plans_request ''APPROVED'' orgIds) = Inr resp_a"
    and "api_get (plans_request ''REJECTED'' orgIds) = Inr resp_r"
    and "extract_plans resp_a = JArr aps" and "extract_plans resp_r = JArr rps"
    and "list_all submission_shaped (aps @ rps)"
  shows "reviewedPlans_queryFn api_get af m orgIds evalIds =
           \<lparr>calls = [plans_request ''APPROVED'' orgIds, plans_request ''REJECTED'' orgIds],
            console = [],
            settled = Inr (map snd (foldl (reviewed_keep m evalIds) [] (aps @ rps)))\<rparr>"
proof -
  have f: "forEach_js (reviewed_step m evalIds) [] (aps @ rps)
             = Inr (foldl (reviewed_keep m evalIds) [] (aps @ rps))"
    using assms(7) by (intro forEach_js_total) (simp add: list_all_iff reviewed_step_shaped)
  show ?thesis
    using assms(1-6) by (simp add: reviewedPlans_queryFn_def Let_def promise_all_def f)
qed

lemma keep_keys:
  assumes "\<forall>p \<in> set xs. primitive (plan_id p)"
  shows "fst ` set (foldl (reviewed_keep m ids) M xs)
           = fst ` set M \<union> plan_id ` {p \<in> set xs. decided_by_caller ids p}"
  using assms
proof (induction xs arbitrary: M)
  case Nil
  then show ?case by simp
next
  case (Cons p xs)
  have step: "fst ` set (reviewed_keep m ids M p)
                = fst ` set M \<union> (if decided_by_caller ids p then {plan_id p} else {})"
    using Cons.prems
    by (auto simp: reviewed_keep_def decided_by_caller_def map_has_primitive split: option.splits)
  show ?case
    using Cons.prems by (simp add: Cons.IH step) blast
qed

lemma keep_distinct:
  assumes "\<forall>p \<in> set xs. primitive (plan_id p)" and "distinct (map fst M)"
  shows "distinct (map fst (foldl (reviewed_keep m ids) M xs))"
  using assms
proof (induction xs arbitrary: M)
  case Nil
  then show ?case by simp
next
  case (Cons p xs)
  have "distinct (map fst (reviewed_keep m ids M p))"
    using Cons.prems
    by (auto simp: reviewed_keep_def map_has_primitive split: option.splits)
  with Cons show ?case by simp
qed

lemma keep_origin:
  assumes "\<forall>p \<in> set xs. primitive (plan_id p)"
    and "(k, e) \<in> set (foldl (reviewed_keep m ids) M xs)"
  shows "(k, e) \<in> set M \<or>
         (k \<notin> fst ` set M \<and>
          (\<exists>p r. find (\<lambda>q. plan_id q = k \<and> decided_by_caller ids q) xs = Some p
                 \<and> own_decision ids p = Some r \<and> e = reviewed_entry m p r))"
  using assms
proof (induction xs arbitrary: M)
  case Nil
  then show ?case by simp
next
  case (Cons p xs)
  let ?M' = "reviewed_keep m ids M p"
  from Cons.prems have prim: "primitive (plan_id p)" and prims: "\<forall>p \<in> set xs. primitive (plan_id p)"
    by simp_all
  from Cons.prems(2) have mem: "(k, e) \<in> set (foldl (reviewed_keep m ids) ?M' xs)"
    by simp
  have sub: "set M \<subseteq> set ?M'"
    by (auto simp: reviewed_keep_def split: option.splits)
  have covered: "plan_id p \<in> fst ` set ?M'" if "decided_by_caller ids p"
    using that prim
    by (auto simp: reviewed_keep_def decided_by_caller_def map_has_primitive split: option.splits)
  from Cons.IH [OF prims mem] show ?case
  proof
    assume in': "(k, e) \<in> set ?M'"
    show ?thesis
    proof (cases "(k, e) \<in> set M")
      case True
      then show ?thesis by simp
    next
      case False
      with in' obtain r where r: "own_decision ids p = Some r" "\<not> map_has M (plan_id p)"
        "k = plan_id p" "e = reviewed_entry m p r"
        by (auto simp: reviewed_keep_def split: option.splits if_splits)
      then have "k \<notin> fst ` set M"
        using prim by (simp add: map_has_primitive)
      then show ?thesis
        using r by (simp add: decided_by_caller_def)
    qed
  next
    assume rest: "k \<notin> fst ` set ?M' \<and>
      (\<exists>q r. find (\<lambda>q. plan_id q = k \<and> decided_by_caller ids q) xs = Some q
             \<and> own_decision ids q = Some r \<and> e = reviewed_entry m q r)"
    then have notp: "\<not> (plan_id p = k \<and> decided_by_caller ids p)"
      using covered by auto
    from rest sub have "k \<notin> fst ` set M"
      by auto
    then show ?thesis
      using rest notp by auto
  qed
qed

lemma find_Some_mem: "find P xs = Some x \<Longrightarrow> x \<in> set xs \<and> P x"
  by (induction xs) (auto split: if_splits)

lemma in_image_Collect: "(y \<in> f ` {x \<in> A. P x}) = (\<exists>x \<in> A. f x = y \<and> P x)"
  by auto

lemma decided_by_caller_iff:
  "decided_by_caller ids p
     = (\<exists>r \<in> set (decision_records p). opt_prop r ''evaluator'' \<in> JNum ` set ids)"
  by (auto simp: decided_by_caller_def own_decision_def find_None_iff by_caller_def)

lemma opt_prop_reviewed_entry:
  "is_object p \<Longrightarrow> k \<noteq> ''organizationName'' \<Longrightarrow> k \<noteq> ''currentEvaluatorReview'' \<Longrightarrow>
   opt_prop (reviewed_entry m p r) k = opt_prop p k"
  by (simp add: reviewed_entry_def opt_prop_update spread_object_object)

lemma opt_prop_reviewed_entry_review:
  "opt_prop (reviewed_entry m p r) ''currentEvaluatorReview'' = r"
  by (simp add: reviewed_entry_def opt_prop_update)

section \<open>What every run of the builders delivers, and its statistics\<close>

lemma bind_js_eq_Inr: "(bind_js r f = Inr y) = (\<exists>v. r = Inr v \<and> f v = Inr y)"
  by (cases r) simp_all

lemma get_prop_array_object: "get_prop p k = Inr v \<Longrightarrow> isArray v \<Longrightarrow> is_object p"
  by (cases p) (auto split: option.splits)

lemma plan_id_reviewed_entry: "is_object p \<Longrightarrow> plan_id (reviewed_entry m p r) = plan_id p"
  by (simp add: plan_id_def opt_prop_reviewed_entry)

lemma map_inv_snoc:
  assumes "map_inv M" and "\<not> map_has M k" and "is_object e" and "plan_id e = k"
  shows "map_inv (M @ [(k, e)])"
  using assms
  by (auto simp: map_inv_def different_keys_def sorted_wrt_append map_has_def list_ex_iff)

lemma reviewed_step_inv:
  assumes "reviewed_step m ids M p = Inr M'" and "map_inv M"
  shows "map_inv M'"
proof -
  from assms(1) obtain reviews where rv: "get_prop p ''reviews'' = Inr reviews"
    and rest: "(if truthy reviews \<and> isArray reviews
       then bind_js (find_js (reviewed_by ids) (elements reviews))
         (\<lambda>currentEvaluatorReview.
            if truthy currentEvaluatorReview
            then bind_js (get_prop p ''id'') (\<lambda>plan_key.
              if \<not> map_has M plan_key
              then bind_js (get_prop p ''organization'') (\<lambda>org.
                Inr (map_set M plan_key
                  (JObj (AList.update ''currentEvaluatorReview'' currentEvaluatorReview
                    (AList.update ''organizationName'' (organizationName_of m org)
                      (spread_object p))))))
              else Inr M)
            else Inr M)
       else Inr M) = Inr M'"
    unfolding reviewed_step_def bind_js_eq_Inr by blast
  show ?thesis
  proof (cases "truthy reviews \<and> isArray reviews")
    case False
    with rest assms(2) show ?thesis by simp
  next
    case True
    then have obj: "is_object p"
      using rv get_prop_array_object by blast
    from True rest obtain cer where
      inner: "(if truthy cer
            then bind_js (get_prop p ''id'') (\<lambda>plan_key.
              if \<not> map_has M plan_key
              then bind_js (get_prop p ''organization'') (\<lambda>org.
                Inr (map_set M plan_key
                  (JObj (AList.update ''currentEvaluatorReview'' cer
                    (AList.update ''organizationName'' (organizationName_of m org)
                      (spread_object p))))))
              else Inr M)
            else Inr M) = Inr M'"
      by (auto simp: bind_js_eq_Inr)
    have step: "(if truthy cer
              then if \<not> map_has M (opt_prop p ''id'')
                   then Inr (map_set M (opt_prop p ''id'')
                          (reviewed_entry m p cer))
                   else Inr M
              else Inr M) = Inr M'"
      using inner by (simp add: get_prop_object [OF obj] reviewed_entry_def split: if_splits)
    show ?thesis
    proof (cases "truthy cer \<and> \<not> map_has M (opt_prop p ''id'')")
      case False
      with step assms(2) show ?thesis by (auto split: if_splits)
    next
      case True
      with step have "M' = M @ [(plan_id p, reviewed_entry m p cer)]"
        by (simp add: map_set_fresh plan_id_def)
      moreover have "map_inv (M @ [(plan_id p, reviewed_entry m p cer)])"
      proof (rule map_inv_snoc)
        show "map_inv M" by fact
        show "\<not> map_has M (plan_id p)" using True by (simp add: plan_id_def)
        show "is_object (reviewed_entry m p cer)" by (simp add: reviewed_entry_def)
        show "plan_id (reviewed_entry m p cer) = plan_id p" using obj by (rule plan_id_reviewed_entry)
      qed
      ultimately show ?thesis by simp
    qed
  qed
qed

lemma forEach_reviewed_inv:
  "forEach_js (reviewed_step m ids) M xs = Inr M' \<Longrightarrow> map_inv M \<Longrightarrow> map_inv M'"
proof (induction xs arbitrary: M)
  case Nil
  then show ?case by simp
next
  case (Cons x xs)
  from Cons.prems(1) obtain M1 where "reviewed_step m ids M x = Inr M1"
    and "forEach_js (reviewed_step m ids) M1 xs = Inr M'"
    by (auto simp: bind_js_eq_Inr)
  with Cons.IH Cons.prems(2) reviewed_step_inv show ?case
    by blast
qed


lemma reviewed_out_inv:
  assumes "settled (reviewedPlans_queryFn api_get af m orgIds evalIds) = Inr out"
  shows "list_all is_object out \<and> different_keys (map plan_id out)"
proof (cases "length orgIds = 0 \<or> length evalIds = 0")
  case True
  with assms show ?thesis
    by (auto simp: reviewedPlans_queryFn_def different_keys_def)
next
  case False
  let ?body = "bind_js (promise_all af (api_get (plans_request ''APPROVED'' orgIds))
                          (api_get (plans_request ''REJECTED'' orgIds)))
                (\<lambda>(approved_data, rejected_data).
                   bind_js (spread_array (extract_plans approved_data)) (\<lambda>approved_plans.
                   bind_js (spread_array (extract_plans rejected_data)) (\<lambda>rejected_plans.
                   bind_js (forEach_js (reviewed_step m evalIds) []
                              (approved_plans @ rejected_plans))
                     (\<lambda>uniquePlansMap. Inr (map snd uniquePlansMap)))))"
  show ?thesis
  proof (cases ?body)
    case (Inl e)
    with False assms show ?thesis
      by (simp add: reviewedPlans_queryFn_def Let_def different_keys_def)
  next
    case (Inr plans)
    with False assms have out: "out = plans"
      by (simp add: reviewedPlans_queryFn_def Let_def)
    from Inr obtain xs M' where f: "forEach_js (reviewed_step m evalIds) [] xs = Inr M'"
      and p: "plans = map snd M'"
      by (auto simp: bind_js_eq_Inr)
    have "map_inv []"
      by (simp add: map_inv_def different_keys_def)
    with f have inv: "map_inv M'"
      by (rule forEach_reviewed_inv)
    then have ids: "map plan_id (map snd M') = map fst M'"
      by (auto simp: map_inv_def list_all_iff)
    from inv have "list_all is_object (map snd M')"
      by (auto simp: map_inv_def list_all_iff)
    moreover from inv have "different_keys (map plan_id (map snd M'))"
      unfolding ids by (simp add: map_inv_def)
    ultimately show ?thesis
      unfolding out p by simp
  qed
qed

lemma map_js_objects:
  "map_js (with_organizationName m) xs = Inr ys \<Longrightarrow> list_all is_object ys"
proof (induction xs arbitrary: ys)
  case Nil
  then show ?case by simp
next
  case (Cons x xs)
  then show ?case
    by (auto simp: bind_js_eq_Inr with_organizationName_def)
qed

lemma pending_out_objects:
  assumes "settled (pendingPlans_queryFn api_get m orgIds evalIds) = Inr out"
  shows "list_all is_object out"
proof (cases "length orgIds = 0 \<or> length evalIds = 0")
  case True
  with assms show ?thesis
    by (auto simp: pendingPlans_queryFn_def)
next
  case False
  let ?body = "bind_js (api_get (plans_request ''SUBMITTED'' orgIds)) (\<lambda>data.
                bind_js (array_filter (pending_filter evalIds) (extract_plans data))
                  (\<lambda>filteredPlans. map_js (with_organizationName m) filteredPlans))"
  show ?thesis
  proof (cases ?body)
    case (Inl e)
    with False assms show ?thesis
      by (simp add: pendingPlans_queryFn_def Let_def)
  next
    case (Inr plans)
    with False assms have out: "out = plans"
      by (simp add: pendingPlans_queryFn_def Let_def)
    from Inr obtain xs where "map_js (with_organizationName m) xs = Inr plans"
      by (auto simp: bind_js_eq_Inr)
    then show ?thesis
      unfolding out by (rule map_js_objects)
  qed
qed


lemma set_add_fresh: "\<forall>x \<in> set s. \<not> same_value_zero x k \<Longrightarrow> set_add s k = s @ [k]"
  by (simp add: set_add_def set_has_def list_ex_iff)

lemma count_reviewed_step:
  assumes "is_object e" and "\<forall>x \<in> set pre. \<not> same_value_zero (plan_id x) (plan_id e)"
  shows "count_reviewed (map plan_id (filter decided_status pre),
                         map plan_id (filter (has_status ''APPROVED'') pre),
                         map plan_id (filter (has_status ''REJECTED'') pre)) e
           = Inr (map plan_id (filter decided_status (pre @ [e])),
                  map plan_id (filter (has_status ''APPROVED'') (pre @ [e])),
                  map plan_id (filter (has_status ''REJECTED'') (pre @ [e])))"
proof -
  have fresh: "set_add (map plan_id (filter P pre)) (plan_id e) = map plan_id (filter P pre) @ [plan_id e]"
    for P
    using assms(2) by (intro set_add_fresh) auto
  show ?thesis
    by (simp add: count_reviewed_def get_prop_object [OF assms(1)] Let_def fresh
        plan_id_def [symmetric] decided_status_def has_status_def)
qed

lemma count_reviewed_run:
  assumes "list_all is_object (pre @ es)" and "different_keys (map plan_id (pre @ es))"
  shows "forEach_js count_reviewed
           (map plan_id (filter decided_status pre),
            map plan_id (filter (has_status ''APPROVED'') pre),
            map plan_id (filter (has_status ''REJECTED'') pre)) es
         = Inr (map plan_id (filter decided_status (pre @ es)),
                map plan_id (filter (has_status ''APPROVED'') (pre @ es)),
                map plan_id (filter (has_status ''REJECTED'') (pre @ es)))"
  using assms
proof (induction es arbitrary: pre)
  case Nil
  then show ?case by simp
next
  case (Cons e es)
  from Cons.prems have obj: "is_object e"
    by simp
  from Cons.prems(2) have fresh: "\<forall>x \<in> set pre. \<not> same_value_zero (plan_id x) (plan_id e)"
    by (simp add: different_keys_def sorted_wrt_append)
  from Cons.prems have "list_all is_object ((pre @ [e]) @ es)"
    and "different_keys (map plan_id ((pre @ [e]) @ es))"
    by simp_all
  from Cons.IH [OF this] show ?case
    by (simp add: count_reviewed_step [OF obj fresh])
qed

lemma count_pending_run:
  "list_all is_object es \<Longrightarrow> \<exists>s'. forEach_js count_pending s es = Inr s'"
proof (induction es arbitrary: s)
  case Nil
  then show ?case by simp
next
  case (Cons e es)
  then have "\<exists>s1. count_pending s e = Inr s1"
    by (simp add: count_pending_def get_prop_object)
  with Cons show ?case
    by auto
qed

lemma length_filter_decided:
  "length (filter decided_status es)
     = length (filter (has_status ''APPROVED'') es) + length (filter (has_status ''REJECTED'') es)"
  by (induction es) (auto simp: decided_status_def has_status_def)

lemma statistics_of_builders:
  assumes "list_all is_object waiting" and "list_all is_object decided"
    and "different_keys (map plan_id decided)"
    and "pp = None \<or> pp = Some waiting" and "rp = None \<or> rp = Some decided"
  shows "\<exists>counts. statistics pp rp = Inr counts
           \<and> reviewedCount counts = approvedCount counts + rejectedCount counts
           \<and> (rp = Some decided \<longrightarrow>
                reviewedCount counts = length (filter decided_status decided)
                \<and> approvedCount counts = length (filter (has_status ''APPROVED'') decided)
                \<and> rejectedCount counts = length (filter (has_status ''REJECTED'') decided))"
proof -
  obtain ps where ps: "(case pp of None \<Rightarrow> Inr [] | Some data \<Rightarrow> forEach_js count_pending [] data) = Inr ps"
    using assms(4) count_pending_run [OF assms(1), of "[]"] by auto
  have "forEach_js count_reviewed
          (map plan_id (filter decided_status []),
           map plan_id (filter (has_status ''APPROVED'') []),
           map plan_id (filter (has_status ''REJECTED'') [])) decided
        = Inr (map plan_id (filter decided_status ([] @ decided)),
               map plan_id (filter (has_status ''APPROVED'') ([] @ decided)),
               map plan_id (filter (has_status ''REJECTED'') ([] @ decided)))"
    using assms(2,3) by (intro count_reviewed_run) simp_all
  then have rs: "forEach_js count_reviewed ([], [], []) decided
        = Inr (map plan_id (filter decided_status decided),
               map plan_id (filter (has_status ''APPROVED'') decided),
               map plan_id (filter (has_status ''REJECTED'') decided))"
    by simp
  from assms(5) show ?thesis
  proof
    assume "rp = None"
    then show ?thesis
      by (simp add: statistics_def ps)
  next
    assume "rp = Some decided"
    then show ?thesis
      by (simp add: statistics_def ps rs length_filter_decided)
  qed
qed

section \<open>Failing fetches\<close>

lemma pending_settles: "\<exists>d. settled (pendingPlans_queryFn api_get m orgIds evalIds) = Inr d"
  by (auto simp: pendingPlans_queryFn_def Let_def split: sum.splits)

lemma reviewed_settles: "\<exists>d. settled (reviewedPlans_queryFn api_get af m orgIds evalIds) = Inr d"
  by (auto simp: reviewedPlans_queryFn_def Let_def split: sum.splits)

lemma promise_all_fails:
  "a = Inl e \<or> b = Inl e \<Longrightarrow> \<exists>err. promise_all af a b = Inl err \<and> (a = Inl err \<or> b = Inl err)"
  by (cases a; cases b) (auto simp: promise_all_def)

lemma pending_fetch_fails:
  assumes "orgIds \<noteq> []" and "evalIds \<noteq> []"
    and "api_get (plans_request ''SUBMITTED'' orgIds) = Inl e"
  shows "pendingPlans_queryFn api_get m orgIds evalIds =
           \<lparr>calls = [plans_request ''SUBMITTED'' orgIds],
            console = [ConsoleError ''Error fetching pending reviews:'' e],
            settled = Inr []\<rparr>"
  using assms by (simp add: pendingPlans_queryFn_def Let_def)

lemma reviewed_fetch_fails:
  assumes "orgIds \<noteq> []" and "evalIds \<noteq> []"
    and "api_get (plans_request ''APPROVED'' orgIds) = Inl e
         \<or> api_get (plans_request ''REJECTED'' orgIds) = Inl e"
  shows "\<exists>err. reviewedPlans_queryFn api_get af m orgIds evalIds =
           \<lparr>calls = [plans_request ''APPROVED'' orgIds, plans_request ''REJECTED'' orgIds],
            console = [ConsoleError ''Error fetching reviewed plans:'' err],
            settled = Inr []\<rparr>
         \<and> (api_get (plans_request ''APPROVED'' orgIds) = Inl err
            \<or> api_get (plans_request ''REJECTED'' orgIds) = Inl err)"
proof -
  obtain err where "promise_all af (api_get (plans_request ''APPROVED'' orgIds))
                      (api_get (plans_request ''REJECTED'' orgIds)) = Inl err"
    and "api_get (plans_request ''APPROVED'' orgIds) = Inl err
         \<or> api_get (plans_request ''REJECTED'' orgIds) = Inl err"
    using promise_all_fails [OF assms(3)] by blast
  with assms(1,2) show ?thesis
    by (simp add: reviewedPlans_queryFn_def Let_def)
qed

section \<open>Shapes of a response body\<close>

lemma extract_plans_results:
  "map_of fs ''results'' = Some (JArr ps) \<Longrightarrow> extract_plans (JObj fs) = JArr ps"
  by (simp add: extract_plans_def opt_prop_def)

lemma extract_plans_bare: "extract_plans (JArr ps) = JArr ps"
  by (simp add: extract_plans_def opt_prop_def)

lemma extract_plans_falsy: "\<not> truthy resp \<Longrightarrow> extract_plans resp = JArr []"
  by (cases resp) (simp_all add: extract_plans_def opt_prop_def)

lemma pending_cong:
  assumes "same_answer (api (plans_request ''SUBMITTED'' orgIds)) (api' (plans_request ''SUBMITTED'' orgIds))"
  shows "pendingPlans_queryFn api m orgIds evalIds = pendingPlans_queryFn api' m orgIds evalIds"
  using assms
  by (cases "api (plans_request ''SUBMITTED'' orgIds)"; cases "api' (plans_request ''SUBMITTED'' orgIds)")
     (simp_all add: pendingPlans_queryFn_def Let_def same_answer_def)

lemma reviewed_cong:
  assumes "same_answer (api (plans_request ''APPROVED'' orgIds)) (api' (plans_request ''APPROVED'' orgIds))"
    and "same_answer (api (plans_request ''REJECTED'' orgIds)) (api' (plans_request ''REJECTED'' orgIds))"
  shows "reviewedPlans_queryFn api af m orgIds evalIds = reviewedPlans_queryFn api' af m orgIds evalIds"
proof -
  have "bind_js (promise_all af (api (plans_request ''APPROVED'' orgIds)) (api (plans_request ''REJECTED'' orgIds)))
          (\<lambda>(approved_data, rejected_data).
             bind_js (spread_array (extract_plans approved_data)) (\<lambda>approved_plans.
             bind_js (spread_array (extract_plans rejected_data)) (\<lambda>rejected_plans.
             bind_js (forEach_js (reviewed_step m evalIds) [] (approved_plans @ rejected_plans))
               (\<lambda>uniquePlansMap. Inr (map snd uniquePlansMap)))))
      = bind_js (promise_all af (api' (plans_request ''APPROVED'' orgIds)) (api' (plans_request ''REJECTED'' orgIds)))
          (\<lambda>(approved_data, rejected_data).
             bind_js (spread_array (extract_plans approved_data)) (\<lambda>approved_plans.
             bind_js (spread_array (extract_plans rejected_data)) (\<lambda>rejected_plans.
             bind_js (forEach_js (reviewed_step m evalIds) [] (approved_plans @ rejected_plans))
               (\<lambda>uniquePlansMap. Inr (map snd uniquePlansMap)))))"
    using assms
    by (cases "api (plans_request ''APPROVED'' orgIds)"; cases "api' (plans_request ''APPROVED'' orgIds)";
        cases "api (plans_request ''REJECTED'' orgIds)"; cases "api' (plans_request ''REJECTED'' orgIds)")
       (simp_all add: same_answer_def promise_all_def)
  then show ?thesis
    by (simp add: reviewedPlans_queryFn_def Let_def)
qed

lemma same_answer_refl: "same_answer a a"
  by (cases a) (simp_all add: same_answer_def)

lemma pending_other_shape:
  assumes "orgIds \<noteq> []" and "evalIds \<noteq> []"
    and "api_get (plans_request ''SUBMITTED'' orgIds) = Inr resp"
    and "\<not> isArray (extract_plans resp)"
  shows "pendingPlans_queryFn api_get m orgIds evalIds =
           \<lparr>calls = [plans_request ''SUBMITTED'' orgIds],
            console = [ConsoleError ''Error fetching pending reviews:'' TypeError],
            settled = Inr []\<rparr>"
proof -
  have "array_filter (pending_filter evalIds) (extract_plans resp) = Inl TypeError"
    using assms(4) by (cases "extract_plans resp") (simp_all add: array_filter_def)
  with assms(1-3) show ?thesis
    by (simp add: pendingPlans_queryFn_def Let_def)
qed

lemma reviewed_step_string: "reviewed_step m ids M (JStr s) = Inr M"
  by (simp add: reviewed_step_def)

lemma forEach_js_characters:
  "forEach_js (reviewed_step m ids) M (map (\<lambda>c. JStr [c]) s) = Inr M"
  by (induction s) (simp_all add: reviewed_step_string)

lemma forEach_js_append:
  "forEach_js f s (xs @ ys) = bind_js (forEach_js f s xs) (\<lambda>s'. forEach_js f s' ys)"
proof (induction xs arbitrary: s)
  case Nil
  then show ?case by simp
next
  case (Cons x xs)
  then show ?case by (cases "f s x") simp_all
qed

lemma spread_not_array:
  assumes "\<not> isArray v"
  shows "spread_array v = Inl TypeError \<or> (\<exists>s. spread_array v = Inr (map (\<lambda>c. JStr [c]) s))"
  using assms by (cases v) (auto simp: spread_array_def)

lemma reviewed_body_other_first:
  assumes "\<not> isArray (extract_plans x)"
  shows "bind_js (spread_array (extract_plans x)) (\<lambda>approved_plans.
           bind_js (spread_array (extract_plans y)) (\<lambda>rejected_plans.
           bind_js (forEach_js (reviewed_step m ids) [] (approved_plans @ rejected_plans))
             (\<lambda>uniquePlansMap. Inr (map snd uniquePlansMap)))) = Inl TypeError
         \<or> bind_js (spread_array (extract_plans x)) (\<lambda>approved_plans.
           bind_js (spread_array (extract_plans y)) (\<lambda>rejected_plans.
           bind_js (forEach_js (reviewed_step m ids) [] (approved_plans @ rejected_plans))
             (\<lambda>uniquePlansMap. Inr (map snd uniquePlansMap))))
           = bind_js (spread_array (extract_plans (JArr []))) (\<lambda>approved_plans.
           bind_js (spread_array (extract_plans y)) (\<lambda>rejected_plans.
           bind_js (forEach_js (reviewed_step m ids) [] (approved_plans @ rejected_plans))
             (\<lambda>uniquePlansMap. Inr (map snd uniquePlansMap))))"
  using spread_not_array [OF assms]
  by (auto simp: extract_plans_bare forEach_js_append forEach_js_characters)

lemma reviewed_body_other_second:
  assumes "\<not> isArray (extract_plans y)"
  shows "(\<exists>e. bind_js (spread_array (extract_plans x)) (\<lambda>approved_plans.
           bind_js (spread_array (extract_plans y)) (\<lambda>rejected_plans.
           bind_js (forEach_js (reviewed_step m ids) [] (approved_plans @ rejected_plans))
             (\<lambda>uniquePlansMap. Inr (map snd uniquePlansMap)))) = Inl e)
         \<or> bind_js (spread_array (extract_plans x)) (\<lambda>approved_plans.
           bind_js (spread_array (extract_plans y)) (\<lambda>rejected_plans.
           bind_js (forEach_js (reviewed_step m ids) [] (approved_plans @ rejected_plans))
             (\<lambda>uniquePlansMap. Inr (map snd uniquePlansMap))))
           = bind_js (spread_array (extract_plans x)) (\<lambda>approved_plans.
           bind_js (spread_array (extract_plans (JArr []))) (\<lambda>rejected_plans.
           bind_js (forEach_js (reviewed_step m ids) [] (approved_plans @ rejected_plans))
             (\<lambda>uniquePlansMap. Inr (map snd uniquePlansMap))))"
proof (cases "spread_array (extract_plans x)")
  case (Inl e)
  then show ?thesis by simp
next
  case (Inr aps)
  from spread_not_array [OF assms] show ?thesis
  proof
    assume "spread_array (extract_plans y) = Inl TypeError"
    with Inr show ?thesis by simp
  next
    assume "\<exists>s. spread_array (extract_plans y) = Inr (map (\<lambda>c. JStr [c]) s)"
    then obtain s where s: "spread_array (extract_plans y) = Inr (map (\<lambda>c. JStr [c]) s)"
      by blast
    show ?thesis
    proof (cases "forEach_js (reviewed_step m ids) [] aps")
      case (Inl e)
      with Inr s show ?thesis
        by (simp add: forEach_js_append)
    next
      case (Inr M)
      with \<open>spread_array (extract_plans x) = Inr aps\<close> s show ?thesis
        by (simp add: extract_plans_bare forEach_js_append forEach_js_characters)
    qed
  qed
qed


lemma requests_differ [simp]:
  "plans_request ''APPROVED'' orgIds \<noteq> plans_request ''REJECTED'' orgIds"
  "plans_request ''REJECTED'' orgIds \<noteq> plans_request ''APPROVED'' orgIds"
  by (simp_all add: plans_request_def)

lemma reviewed_other_shape_approved:
  assumes "orgIds \<noteq> []" and "evalIds \<noteq> []"
    and "api_get (plans_request ''APPROVED'' orgIds) = Inr resp"
    and "\<not> isArray (extract_plans resp)"
  shows "settled (reviewedPlans_queryFn api_get af m orgIds evalIds) = Inr []
         \<or> reviewedPlans_queryFn api_get af m orgIds evalIds
             = reviewedPlans_queryFn (api_get(plans_request ''APPROVED'' orgIds := Inr (JArr []))) af m orgIds evalIds"
proof (cases "api_get (plans_request ''REJECTED'' orgIds)")
  case (Inl e)
  with assms(1-3) show ?thesis
    by (simp add: reviewedPlans_queryFn_def Let_def promise_all_def)
next
  case (Inr y)
  from reviewed_body_other_first [OF assms(4), of y m evalIds] show ?thesis
  proof
    assume "bind_js (spread_array (extract_plans resp)) (\<lambda>approved_plans.
           bind_js (spread_array (extract_plans y)) (\<lambda>rejected_plans.
           bind_js (forEach_js (reviewed_step m evalIds) [] (approved_plans @ rejected_plans))
             (\<lambda>uniquePlansMap. Inr (map snd uniquePlansMap)))) = Inl TypeError"
    with assms(1-3) Inr have "settled (reviewedPlans_queryFn api_get af m orgIds evalIds) = Inr []"
      by (simp add: reviewedPlans_queryFn_def Let_def promise_all_def)
    then show ?thesis ..
  next
    assume "bind_js (spread_array (extract_plans resp)) (\<lambda>approved_plans.
           bind_js (spread_array (extract_plans y)) (\<lambda>rejected_plans.
           bind_js (forEach_js (reviewed_step m evalIds) [] (approved_plans @ rejected_plans))
             (\<lambda>uniquePlansMap. Inr (map snd uniquePlansMap))))
           = bind_js (spread_array (extract_plans (JArr []))) (\<lambda>approved_plans.
           bind_js (spread_array (extract_plans y)) (\<lambda>rejected_plans.
           bind_js (forEach_js (reviewed_step m evalIds) [] (approved_plans @ rejected_plans))
             (\<lambda>uniquePlansMap. Inr (map snd uniquePlansMap))))"
    with assms(1-3) Inr
    have "reviewedPlans_queryFn api_get af m orgIds evalIds
             = reviewedPlans_queryFn (api_get(plans_request ''APPROVED'' orgIds := Inr (JArr []))) af m orgIds evalIds"
      by (simp add: reviewedPlans_queryFn_def Let_def promise_all_def)
    then show ?thesis ..
  qed
qed

lemma reviewed_other_shape_rejected:
  assumes "orgIds \<noteq> []" and "evalIds \<noteq> []"
    and "api_get (plans_request ''REJECTED'' orgIds) = Inr resp"
    and "\<not> isArray (extract_plans resp)"
  shows "settled (reviewedPlans_queryFn api_get af m orgIds evalIds) = Inr []
         \<or> reviewedPlans_queryFn api_get af m orgIds evalIds
             = reviewedPlans_queryFn (api_get(plans_request ''REJECTED'' orgIds := Inr (JArr []))) af m orgIds evalIds"
proof (cases "api_get (plans_request ''APPROVED'' orgIds)")
  case (Inl e)
  with assms(1-3) show ?thesis
    by (simp add: reviewedPlans_queryFn_def Let_def promise_all_def)
next
  case (Inr x)
  from reviewed_body_other_second [OF assms(4), of x m evalIds] show ?thesis
  proof
    assume "\<exists>e. bind_js (spread_array (extract_plans x)) (\<lambda>approved_plans.
           bind_js (spread_array (extract_plans resp)) (\<lambda>rejected_plans.
           bind_js (forEach_js (reviewed_step m evalIds) [] (approved_plans @ rejected_plans))
             (\<lambda>uniquePlansMap. Inr (map snd uniquePlansMap)))) = Inl e"
    with assms(1-3) Inr have "settled (reviewedPlans_queryFn api_get af m orgIds evalIds) = Inr []"
      by (auto simp: reviewedPlans_queryFn_def Let_def promise_all_def)
    then show ?thesis ..
  next
    assume "bind_js (spread_array (extract_plans x)) (\<lambda>approved_plans.
           bind_js (spread_array (extract_plans resp)) (\<lambda>rejected_plans.
           bind_js (forEach_js (reviewed_step m evalIds) [] (approved_plans @ rejected_plans))
             (\<lambda>uniquePlansMap. Inr (map snd uniquePlansMap))))
           = bind_js (spread_array (extract_plans x)) (\<lambda>approved_plans.
           bind_js (spread_array (extract_plans (JArr []))) (\<lambda>rejected_plans.
           bind_js (forEach_js (reviewed_step m evalIds) [] (approved_plans @ rejected_plans))
             (\<lambda>uniquePlansMap. Inr (map snd uniquePlansMap))))"
    with assms(1-3) Inr
    have "reviewedPlans_queryFn api_get af m orgIds evalIds
             = reviewedPlans_queryFn (api_get(plans_request ''REJECTED'' orgIds := Inr (JArr []))) af m orgIds evalIds"
      by (simp add: reviewedPlans_queryFn_def Let_def promise_all_def)
    then show ?thesis ..
  qed
qed

lemma falsy_like_empty:
  assumes "api_get request = Inr resp" and "\<not> truthy resp"
  shows "same_answer (api_get r) ((api_get(request := Inr (JArr []))) r)"
proof (cases "r = request")
  case True
  with assms show ?thesis
    by (simp add: same_answer_def extract_plans_falsy extract_plans_bare)
next
  case False
  then show ?thesis
    by (simp add: same_answer_refl)
qed

lemma wrapped_like_bare:
  assumes "api_wrapped r = Inr (JObj fs)" and "map_of fs ''results'' = Some (JArr ps)"
    and "api_bare r = Inr (JArr ps)"
  shows "same_answer (api_wrapped r) (api_bare r)"
  using assms by (simp add: same_answer_def extract_plans_results extract_plans_bare)

section \<open>Entries and the plans they are made of\<close>







section \<open>Submission, initialization and names\<close>

lemma marked_stale_iff:
  "marked_stale st k = (\<exists>f \<in> set (invalidated st). prefix f k)"
  by (simp add: marked_stale_def list_ex_iff)

lemma organizationName_of_miss:
  "m (number_string n) = None \<Longrightarrow>
   organizationName_of m (JNum n) = JStr (''Organization '' @ number_string n)"
  by (simp add: organizationName_of_def)

lemma getOrganizationName_annotated:
  assumes "opt_prop entry ''organizationName'' = JStr (''Organization '' @ s)" and "is_object entry"
  shows "getOrganizationName m entry = Inr (JStr (''Organization '' @ s))"
  using assms by (simp add: getOrganizationName_def get_prop_object)

lemma checkPermissions_prefetch_fails:
  assumes "isAuthenticated authData" and "isEvaluator (userOrganizations authData)"
    and "userOrganizations authData \<noteq> []"
  shows "checkPermissions isEvaluator (Inr authData) (Inl orgError) st =
           st\<lparr>userOrgIds := map organization (userOrganizations authData),
              currentEvaluatorIds :=
                map id_uo (filter (\<lambda>org. role org = ''EVALUATOR'') (userOrganizations authData)),
              isEvaluatorOnly := isOnlyEvaluator (map role (userOrganizations authData)),
              logged := logged st @ [ConsoleWarn ''Failed to pre-fetch organizations:'' orgError],
              isAuthChecked := True, isInitialLoad := False\<rparr>"
  using assms by (simp add: checkPermissions_def prefetch_organizations_def Let_def)



text \<open>
  C1. When the fetch delivers a list of submissions, the pending-set builder settles with
  the entries of exactly those whose status is \<^verbatim>\<open>SUBMITTED\<close> and none of whose
  Decision Records has a reviewer id among the caller's, in the order of the fetch: a
  fetched submission's entry is in the output iff that holds, and a submission with status
  \<^verbatim>\<open>SUBMITTED\<close> and no Decision Records (absent or empty) is kept.
\<close>

theorem pending_set_membership:
  assumes "orgIds \<noteq> []" and "reviewerIds \<noteq> []"
    and "api_get (plans_request ''SUBMITTED'' orgIds) = Inr resp"
    and "extract_plans resp = JArr fetched"
    and "list_all submission_shaped fetched"
  shows "\<exists>out. settled (pendingPlans_queryFn api_get orgsMap orgIds reviewerIds) = Inr out
           \<and> out = map (pending_entry orgsMap) (filter (awaits_decision reviewerIds) fetched)
           \<and> (\<forall>plan \<in> set fetched.
                 (pending_entry orgsMap plan \<in> set out) =
                 (opt_prop plan ''status'' = JStr ''SUBMITTED''
                  \<and> (\<forall>record \<in> set (decision_records plan).
                        opt_prop record ''evaluator'' \<notin> JNum ` set reviewerIds)))
           \<and> (\<forall>plan \<in> set fetched.
                 opt_prop plan ''status'' = JStr ''SUBMITTED'' \<and> decision_records plan = []
                   \<longrightarrow> pending_entry orgsMap plan \<in> set out)"
proof -
  let ?out = "map (pending_entry orgsMap) (filter (awaits_decision reviewerIds) fetched)"
  have run: "settled (pendingPlans_queryFn api_get orgsMap orgIds reviewerIds) = Inr ?out"
    by (simp add: pending_run [where api_get = api_get, OF assms])
  have objs: "list_all is_object fetched"
    using assms(5) by (rule shaped_objects)
  have iff: "(pending_entry orgsMap plan \<in> set ?out) = awaits_decision reviewerIds plan"
    if "plan \<in> set fetched" for plan
    using objs that by (rule pending_entry_in_filtered)
  have none: "pending_entry orgsMap plan \<in> set ?out"
    if "plan \<in> set fetched" and "opt_prop plan ''status'' = JStr ''SUBMITTED''"
      and "decision_records plan = []" for plan
    using that iff [OF that(1)] by (simp add: awaits_decision_iff)
  show ?thesis
    using run iff none by (simp add: awaits_decision_iff)
qed

theorem pending_set_membership_witness:
  "\<exists>out. settled (pendingPlans_queryFn
                    (\<lambda>r. Inr (JArr [scenario_plan_other, scenario_plan_own, scenario_plan_fresh]))
                    Map.empty [3] [7]) = Inr out
         \<and> out = [pending_entry Map.empty scenario_plan_other,
                   pending_entry Map.empty scenario_plan_fresh]
         \<and> pending_entry Map.empty scenario_plan_own \<notin> set out"
proof -
  let ?ps = "[scenario_plan_other, scenario_plan_own, scenario_plan_fresh]"
  have h1: "[3::int] \<noteq> []" and h2: "[7::int] \<noteq> []"
    by simp_all
  have h3: "(\<lambda>r. Inr (JArr ?ps)) (plans_request ''SUBMITTED'' [3]) = (Inr (JArr ?ps) :: js_error + json)"
    by simp
  have h4: "extract_plans (JArr ?ps) = JArr ?ps"
    by (simp add: extract_plans_def opt_prop_def)
  have h5: "list_all submission_shaped ?ps"
    by code_simp
  have f: "filter (awaits_decision [7]) ?ps = [scenario_plan_other, scenario_plan_fresh]"
    by code_simp
  have n: "pending_entry Map.empty scenario_plan_own
             \<notin> set [pending_entry Map.empty scenario_plan_other,
                     pending_entry Map.empty scenario_plan_fresh]"
    by code_simp
  from pending_set_membership [where api_get = "\<lambda>r. Inr (JArr ?ps)", OF h1 h2 h3 h4 h5, of Map.empty]
  obtain out where
    o: "settled (pendingPlans_queryFn (\<lambda>r. Inr (JArr ?ps)) Map.empty [3] [7]) = Inr out"
       "out = map (pending_entry Map.empty) (filter (awaits_decision [7]) ?ps)"
    by blast
  have "out = [pending_entry Map.empty scenario_plan_other,
               pending_entry Map.empty scenario_plan_fresh]"
    unfolding o(2) f by simp
  with o(1) n show ?thesis
    by simp
qed

text \<open>
  C3. With no organization ids or no reviewer record ids both builders settle with an
  empty result and issue no request.
\<close>

theorem empty_ids_no_fetch:
  assumes "orgIds = [] \<or> reviewerIds = []"
  shows "pendingPlans_queryFn api_get orgsMap orgIds reviewerIds
           = \<lparr>calls = [], console = [], settled = Inr []\<rparr>
         \<and> reviewedPlans_queryFn api_get approved_first orgsMap orgIds reviewerIds
           = \<lparr>calls = [], console = [], settled = Inr []\<rparr>"
  using assms by (auto simp: pendingPlans_queryFn_def reviewedPlans_queryFn_def)

theorem empty_ids_no_fetch_witness:
  "pendingPlans_queryFn (\<lambda>r. Inr (JArr [scenario_plan_fresh])) Map.empty [] [7]
     = \<lparr>calls = [], console = [], settled = Inr []\<rparr>
   \<and> reviewedPlans_queryFn (\<lambda>r. Inr (JArr [scenario_plan_fresh])) True Map.empty [] [7]
     = \<lparr>calls = [], console = [], settled = Inr []\<rparr>
   \<and> pendingPlans_queryFn (\<lambda>r. Inr (JArr [scenario_plan_fresh])) Map.empty [3] []
     = \<lparr>calls = [], console = [], settled = Inr []\<rparr>
   \<and> reviewedPlans_queryFn (\<lambda>r. Inr (JArr [scenario_plan_fresh])) True Map.empty [3] []
     = \<lparr>calls = [], console = [], settled = Inr []\<rparr>"
proof -
  have a: "([]::int list) = [] \<or> [7::int] = []" and b: "[3::int] = [] \<or> ([]::int list) = []"
    by simp_all
  show ?thesis
    using empty_ids_no_fetch [OF a] empty_ids_no_fetch [OF b] by simp
qed

text \<open>
  C2, as the code has it. When both fetches deliver lists of submissions with primitive
  ids, the decided-set builder settles with entries of pairwise different ids; a fetched
  submission's id is among them iff some fetched copy with that id has a Decision Record
  whose reviewer id is among the caller's; and every entry is made from the first such
  copy in the approved-then-rejected concatenation and carries, as
  \<^verbatim>\<open>currentEvaluatorReview\<close>, the first of that copy's records that is the caller's. The
  builder does not look at the status: an entry has the status of the copy it is made of.
\<close>

theorem decided_set_contents:
  assumes "orgIds \<noteq> []" and "reviewerIds \<noteq> []"
    and "api_get (plans_request ''APPROVED'' orgIds) = Inr resp_a"
    and "api_get (plans_request ''REJECTED'' orgIds) = Inr resp_r"
    and "extract_plans resp_a = JArr approved" and "extract_plans resp_r = JArr rejected"
    and "list_all submission_shaped (approved @ rejected)"
    and "list_all (\<lambda>plan. primitive (plan_id plan)) (approved @ rejected)"
  shows "\<exists>out. settled (reviewedPlans_queryFn api_get approved_first orgsMap orgIds reviewerIds) = Inr out
           \<and> distinct (map plan_id out)
           \<and> (\<forall>plan \<in> set (approved @ rejected).
                 (plan_id plan \<in> plan_id ` set out) =
                 (\<exists>copy \<in> set (approved @ rejected). plan_id copy = plan_id plan
                    \<and> (\<exists>record \<in> set (decision_records copy).
                          opt_prop record ''evaluator'' \<in> JNum ` set reviewerIds)))
           \<and> (\<forall>entry \<in> set out. \<exists>plan record.
                 find (\<lambda>copy. plan_id copy = plan_id entry \<and> decided_by_caller reviewerIds copy)
                   (approved @ rejected) = Some plan
                 \<and> find (by_caller reviewerIds) (decision_records plan) = Some record
                 \<and> entry = reviewed_entry orgsMap plan record
                 \<and> opt_prop entry ''currentEvaluatorReview'' = record
                 \<and> opt_prop entry ''status'' = opt_prop plan ''status'')"
proof -
  let ?all = "approved @ rejected"
  let ?M = "foldl (reviewed_keep orgsMap reviewerIds) [] ?all"
  let ?out = "map snd ?M"
  have run: "settled (reviewedPlans_queryFn api_get approved_first orgsMap orgIds reviewerIds) = Inr ?out"
    by (simp add: reviewed_run [where api_get = api_get, OF assms(1-7)])
  have prim: "\<forall>p \<in> set ?all. primitive (plan_id p)"
    using assms(8) by (simp add: list_all_iff)
  have objs: "\<forall>p \<in> set ?all. is_object p"
    using assms(7) by (simp add: list_all_iff submission_shaped_def)
  have origin: "\<exists>p r. find (\<lambda>q. plan_id q = k \<and> decided_by_caller reviewerIds q) ?all = Some p
                  \<and> own_decision reviewerIds p = Some r \<and> e = reviewed_entry orgsMap p r"
    if "(k, e) \<in> set ?M" for k e
    using keep_origin [OF prim that] by simp
  have key: "plan_id e = k" if "(k, e) \<in> set ?M" for k e
  proof -
    from origin [OF that] obtain p r where
      p: "find (\<lambda>q. plan_id q = k \<and> decided_by_caller reviewerIds q) ?all = Some p"
      and e: "e = reviewed_entry orgsMap p r"
      by blast
    from find_Some_mem [OF p] have "p \<in> set ?all" and "plan_id p = k"
      by simp_all
    with objs e show ?thesis
      by (simp add: plan_id_def opt_prop_reviewed_entry)
  qed
  then have ids: "map plan_id ?out = map fst ?M"
    by auto
  have d: "distinct (map plan_id ?out)"
    unfolding ids by (rule keep_distinct [OF prim]) simp
  have "plan_id ` set ?out = fst ` set ?M"
    using ids by (metis list.set_map)
  also have "\<dots> = fst ` set ([] :: (json \<times> json) list)
                        \<union> plan_id ` {p \<in> set ?all. decided_by_caller reviewerIds p}"
    by (rule keep_keys [OF prim])
  finally have keys: "plan_id ` set ?out = plan_id ` {p \<in> set ?all. decided_by_caller reviewerIds p}"
    by simp
  have member: "(plan_id plan \<in> plan_id ` set ?out) =
      (\<exists>copy \<in> set ?all. plan_id copy = plan_id plan
         \<and> (\<exists>record \<in> set (decision_records copy).
               opt_prop record ''evaluator'' \<in> JNum ` set reviewerIds))" for plan
  proof -
    have "(plan_id plan \<in> plan_id ` {p \<in> set ?all. decided_by_caller reviewerIds p}) =
          (\<exists>copy \<in> set ?all. plan_id copy = plan_id plan \<and> decided_by_caller reviewerIds copy)"
      by (rule in_image_Collect)
    then show ?thesis
      unfolding keys decided_by_caller_iff .
  qed
  have attributed: "\<exists>plan record.
      find (\<lambda>copy. plan_id copy = plan_id entry \<and> decided_by_caller reviewerIds copy) ?all = Some plan
      \<and> find (by_caller reviewerIds) (decision_records plan) = Some record
      \<and> entry = reviewed_entry orgsMap plan record
      \<and> opt_prop entry ''currentEvaluatorReview'' = record
      \<and> opt_prop entry ''status'' = opt_prop plan ''status''"
    if "entry \<in> set ?out" for entry
  proof -
    from that obtain k where k: "(k, entry) \<in> set ?M"
      by auto
    from origin [OF k] key [OF k] obtain p r where
      p: "find (\<lambda>q. plan_id q = plan_id entry \<and> decided_by_caller reviewerIds q) ?all = Some p"
      and r: "own_decision reviewerIds p = Some r" and e: "entry = reviewed_entry orgsMap p r"
      by blast
    from find_Some_mem [OF p] have "p \<in> set ?all"
      by simp
    with objs have "is_object p"
      by simp
    then have "opt_prop entry ''status'' = opt_prop p ''status''"
      by (simp add: e opt_prop_reviewed_entry)
    with p r e show ?thesis
      by (auto simp: own_decision_def opt_prop_reviewed_entry_review)
  qed
  show ?thesis
    using run d member attributed by blast
qed

theorem decided_set_contents_witness:
  "\<exists>out. settled (reviewedPlans_queryFn scenario_store True Map.empty [3] [7]) = Inr out
         \<and> out = [reviewed_entry Map.empty scenario_plan_approved scenario_review_ok]
         \<and> map plan_id out = [JNum 5]
         \<and> map (\<lambda>entry. opt_prop (opt_prop entry ''currentEvaluatorReview'') ''feedback'') out
             = [JStr ''ok'']"
proof -
  have h1: "[3::int] \<noteq> []" and h2: "[7::int] \<noteq> []"
    by simp_all
  have h3: "scenario_store (plans_request ''APPROVED'' [3])
              = Inr (JObj [(''results'', JArr [scenario_plan_approved])])"
    by (simp add: scenario_store_def plans_request_def)
  have h4: "scenario_store (plans_request ''REJECTED'' [3]) = Inr (JArr [scenario_plan_stale])"
    by (simp add: scenario_store_def plans_request_def)
  have h5: "extract_plans (JObj [(''results'', JArr [scenario_plan_approved])])
              = JArr [scenario_plan_approved]"
    by (simp add: extract_plans_def opt_prop_def)
  have h6: "extract_plans (JArr [scenario_plan_stale]) = JArr [scenario_plan_stale]"
    by (simp add: extract_plans_def opt_prop_def)
  have h7: "list_all submission_shaped ([scenario_plan_approved] @ [scenario_plan_stale])"
    by code_simp
  have h8: "list_all (\<lambda>plan. primitive (plan_id plan)) ([scenario_plan_approved] @ [scenario_plan_stale])"
    by code_simp
  from decided_set_contents [where api_get = scenario_store, OF h1 h2 h3 h4 h5 h6 h7 h8,
      of True Map.empty]
  obtain out where
    o: "settled (reviewedPlans_queryFn scenario_store True Map.empty [3] [7]) = Inr out"
       "distinct (map plan_id out)"
       "\<forall>entry \<in> set out. \<exists>plan record.
          find (\<lambda>copy. plan_id copy = plan_id entry \<and> decided_by_caller [7] copy)
            ([scenario_plan_approved] @ [scenario_plan_stale]) = Some plan
          \<and> find (by_caller [7]) (decision_records plan) = Some record
          \<and> entry = reviewed_entry Map.empty plan record
          \<and> opt_prop entry ''currentEvaluatorReview'' = record
          \<and> opt_prop entry ''status'' = opt_prop plan ''status''"
    by blast
  have run: "settled (reviewedPlans_queryFn scenario_store True Map.empty [3] [7])
               = Inr [reviewed_entry Map.empty scenario_plan_approved scenario_review_ok]"
    by code_simp
  have ids: "map plan_id [reviewed_entry Map.empty scenario_plan_approved scenario_review_ok] = [JNum 5]"
    by code_simp
  have fb: "map (\<lambda>entry. opt_prop (opt_prop entry ''currentEvaluatorReview'') ''feedback'')
              [reviewed_entry Map.empty scenario_plan_approved scenario_review_ok] = [JStr ''ok'']"
    by code_simp
  from o(1) run have "out = [reviewed_entry Map.empty scenario_plan_approved scenario_review_ok]"
    by simp
  with o(1) ids fb show ?thesis
    by simp
qed

theorem decided_set_status_counterexample:
  "settled (reviewedPlans_queryFn resubmitted_store True Map.empty [3] [7])
     = Inr [reviewed_entry Map.empty scenario_plan_own
              (JObj [(''evaluator'', JNum 7), (''status'', JStr ''APPROVED'')])]
   \<and> opt_prop scenario_plan_own ''status'' \<noteq> JStr ''APPROVED''
   \<and> opt_prop scenario_plan_own ''status'' \<noteq> JStr ''REJECTED''"
  by code_simp

text \<open>
  C4. Whatever the two builders were run on, they settle with lists on which the
  statistics are computed without an exception and with
  \<^verbatim>\<open>reviewedCount = approvedCount + rejectedCount\<close>, also while one of the queries has
  not delivered yet. The decided list has pairwise different ids, so the three counts are
  the numbers of its entries with status \<^verbatim>\<open>APPROVED\<close> or \<^verbatim>\<open>REJECTED\<close>, with
  \<^verbatim>\<open>APPROVED\<close>, and with \<^verbatim>\<open>REJECTED\<close>.
\<close>

theorem statistics_reviewed_sum:
  "\<exists>pending reviewed.
     settled (pendingPlans_queryFn api_p map_p orgs_p ids_p) = Inr pending
     \<and> settled (reviewedPlans_queryFn api_r first_r map_r orgs_r ids_r) = Inr reviewed
     \<and> (\<forall>pendingPlans \<in> {None, Some pending}. \<forall>reviewedPlans \<in> {None, Some reviewed}.
          \<exists>counts. statistics pendingPlans reviewedPlans = Inr counts
            \<and> reviewedCount counts = approvedCount counts + rejectedCount counts)
     \<and> (\<exists>counts. statistics (Some pending) (Some reviewed) = Inr counts
          \<and> reviewedCount counts = length (filter decided_status reviewed)
          \<and> approvedCount counts = length (filter (has_status ''APPROVED'') reviewed)
          \<and> rejectedCount counts = length (filter (has_status ''REJECTED'') reviewed))"
proof -
  obtain pending where p: "settled (pendingPlans_queryFn api_p map_p orgs_p ids_p) = Inr pending"
    by (cases "settled (pendingPlans_queryFn api_p map_p orgs_p ids_p)")
       (auto simp: pendingPlans_queryFn_def Let_def split: sum.splits if_splits)
  obtain reviewed where r: "settled (reviewedPlans_queryFn api_r first_r map_r orgs_r ids_r) = Inr reviewed"
    by (cases "settled (reviewedPlans_queryFn api_r first_r map_r orgs_r ids_r)")
       (auto simp: reviewedPlans_queryFn_def Let_def split: sum.splits if_splits)
  note po = pending_out_objects [OF p]
  note ro = reviewed_out_inv [OF r]
  have all: "\<exists>counts. statistics pp rp = Inr counts
           \<and> reviewedCount counts = approvedCount counts + rejectedCount counts"
    if "pp = None \<or> pp = Some pending" and "rp = None \<or> rp = Some reviewed" for pp rp
    using statistics_of_builders [OF po conjunct1 [OF ro] conjunct2 [OF ro] that] by blast
  have both: "\<exists>counts. statistics (Some pending) (Some reviewed) = Inr counts
          \<and> reviewedCount counts = length (filter decided_status reviewed)
          \<and> approvedCount counts = length (filter (has_status ''APPROVED'') reviewed)
          \<and> rejectedCount counts = length (filter (has_status ''REJECTED'') reviewed)"
    using statistics_of_builders [OF po conjunct1 [OF ro] conjunct2 [OF ro], of "Some pending" "Some reviewed"]
    by auto
  show ?thesis
    using p r all both by blast
qed

theorem statistics_reviewed_sum_witness:
  "\<exists>pending reviewed.
     settled (pendingPlans_queryFn scenario_store Map.empty [3] [7]) = Inr pending
     \<and> settled (reviewedPlans_queryFn scenario_store True Map.empty [3] [7]) = Inr reviewed
     \<and> statistics (Some pending) (Some reviewed)
           = Inr \<lparr>pendingCount = 2, reviewedCount = 1, approvedCount = 1, rejectedCount = 0\<rparr>"
proof -
  from statistics_reviewed_sum [of scenario_store Map.empty "[3]" "[7]" scenario_store True Map.empty "[3]" "[7]"]
  obtain pending reviewed where
    p: "settled (pendingPlans_queryFn scenario_store Map.empty [3] [7]) = Inr pending"
    and r: "settled (reviewedPlans_queryFn scenario_store True Map.empty [3] [7]) = Inr reviewed"
    by blast
  have p': "settled (pendingPlans_queryFn scenario_store Map.empty [3] [7])
              = Inr [pending_entry Map.empty scenario_plan_other,
                     pending_entry Map.empty scenario_plan_fresh]"
    by code_simp
  have r': "settled (reviewedPlans_queryFn scenario_store True Map.empty [3] [7])
              = Inr [reviewed_entry Map.empty scenario_plan_approved scenario_review_ok]"
    by code_simp
  have s: "statistics (Some [pending_entry Map.empty scenario_plan_other,
                              pending_entry Map.empty scenario_plan_fresh])
             (Some [reviewed_entry Map.empty scenario_plan_approved scenario_review_ok])
           = Inr \<lparr>pendingCount = 2, reviewedCount = 1, approvedCount = 1, rejectedCount = 0\<rparr>"
    by code_simp
  from p p' have "pending = [pending_entry Map.empty scenario_plan_other,
                             pending_entry Map.empty scenario_plan_fresh]"
    by simp
  moreover from r r' have "reviewed = [reviewed_entry Map.empty scenario_plan_approved scenario_review_ok]"
    by simp
  ultimately show ?thesis
    using p r s by simp
qed

text \<open>
  C6. When the request of the pending-set builder is rejected, the builder logs the error
  and resolves with an empty list; when one of the two requests of the decided-set
  builder is rejected, that builder logs the error of a rejected request and resolves
  with an empty list. Neither query function ever rejects, whatever the store answers.
\<close>

theorem fetch_failure_degrades:
  assumes "orgIds \<noteq> []" and "reviewerIds \<noteq> []"
  shows "(api_get (plans_request ''SUBMITTED'' orgIds) = Inl e \<longrightarrow>
            pendingPlans_queryFn api_get orgsMap orgIds reviewerIds =
              \<lparr>calls = [plans_request ''SUBMITTED'' orgIds],
               console = [ConsoleError ''Error fetching pending reviews:'' e],
               settled = Inr []\<rparr>)
         \<and> (api_get (plans_request ''APPROVED'' orgIds) = Inl e
              \<or> api_get (plans_request ''REJECTED'' orgIds) = Inl e \<longrightarrow>
            (\<exists>err. reviewedPlans_queryFn api_get approved_first orgsMap orgIds reviewerIds =
                     \<lparr>calls = [plans_request ''APPROVED'' orgIds, plans_request ''REJECTED'' orgIds],
                      console = [ConsoleError ''Error fetching reviewed plans:'' err],
                      settled = Inr []\<rparr>
                   \<and> (api_get (plans_request ''APPROVED'' orgIds) = Inl err
                      \<or> api_get (plans_request ''REJECTED'' orgIds) = Inl err)))
         \<and> (\<exists>d. settled (pendingPlans_queryFn api_get orgsMap orgIds reviewerIds) = Inr d)
         \<and> (\<exists>d. settled (reviewedPlans_queryFn api_get approved_first orgsMap orgIds reviewerIds) = Inr d)"
  using pending_fetch_fails [OF assms] reviewed_fetch_fails [OF assms] pending_settles reviewed_settles
  by blast

theorem fetch_failure_degrades_witness:
  "pendingPlans_queryFn failing_store Map.empty [3] [7] =
     \<lparr>calls = [plans_request ''SUBMITTED'' [3]],
      console = [ConsoleError ''Error fetching pending reviews:''
                   (RequestFailed (Some 500) ''Request failed with status code 500'')],
      settled = Inr []\<rparr>
   \<and> reviewedPlans_queryFn failing_store True Map.empty [3] [7] =
     \<lparr>calls = [plans_request ''APPROVED'' [3], plans_request ''REJECTED'' [3]],
      console = [ConsoleError ''Error fetching reviewed plans:''
                   (RequestFailed (Some 500) ''Request failed with status code 500'')],
      settled = Inr []\<rparr>"
proof -
  have h1: "[3::int] \<noteq> []" and h2: "[7::int] \<noteq> []"
    by simp_all
  have f: "failing_store request = Inl (RequestFailed (Some 500) ''Request failed with status code 500'')"
    for request
    by (simp add: failing_store_def)
  from fetch_failure_degrades [OF h1 h2, of failing_store
      "RequestFailed (Some 500) ''Request failed with status code 500''" Map.empty True]
  show ?thesis
    by (auto simp: f)
qed

text \<open>
  C8, as the code has it. The list is extracted identically from a body
  \<^verbatim>\<open>{ results: [...] }\<close> and from a bare array, in both builders and for each of their
  requests, and a falsy body (\<^verbatim>\<open>null\<close>, absent, \<^verbatim>\<open>false\<close>, \<^verbatim>\<open>0\<close>, the empty string) is
  treated exactly as an empty list. Any other body from which no array is extracted makes
  the pending-set builder settle with an empty result; the decided-set builder then either
  settles with an empty result altogether or behaves as if that body were an empty list.
\<close>

theorem envelope_shapes:
  "(map_of fs ''results'' = Some (JArr ps)
      \<longrightarrow> extract_plans (JObj fs) = JArr ps \<and> extract_plans (JArr ps) = JArr ps)
   \<and> ((\<forall>request. \<exists>fs ps. api_wrapped request = Inr (JObj fs)
          \<and> map_of fs ''results'' = Some (JArr ps) \<and> api_bare request = Inr (JArr ps))
      \<longrightarrow> pendingPlans_queryFn api_wrapped orgsMap orgIds reviewerIds
            = pendingPlans_queryFn api_bare orgsMap orgIds reviewerIds
          \<and> reviewedPlans_queryFn api_wrapped approved_first orgsMap orgIds reviewerIds
            = reviewedPlans_queryFn api_bare approved_first orgsMap orgIds reviewerIds)
   \<and> (api_get request = Inr resp \<and> \<not> truthy resp
      \<longrightarrow> pendingPlans_queryFn api_get orgsMap orgIds reviewerIds
            = pendingPlans_queryFn (api_get(request := Inr (JArr []))) orgsMap orgIds reviewerIds
          \<and> reviewedPlans_queryFn api_get approved_first orgsMap orgIds reviewerIds
            = reviewedPlans_queryFn (api_get(request := Inr (JArr []))) approved_first orgsMap
                orgIds reviewerIds)
   \<and> (orgIds \<noteq> [] \<and> reviewerIds \<noteq> [] \<and> \<not> isArray (extract_plans resp)
        \<and> api_get (plans_request ''SUBMITTED'' orgIds) = Inr resp
      \<longrightarrow> settled (pendingPlans_queryFn api_get orgsMap orgIds reviewerIds) = Inr [])
   \<and> (orgIds \<noteq> [] \<and> reviewerIds \<noteq> [] \<and> \<not> isArray (extract_plans resp)
        \<and> (request = plans_request ''APPROVED'' orgIds \<or> request = plans_request ''REJECTED'' orgIds)
        \<and> api_get request = Inr resp
      \<longrightarrow> settled (reviewedPlans_queryFn api_get approved_first orgsMap orgIds reviewerIds) = Inr []
          \<or> reviewedPlans_queryFn api_get approved_first orgsMap orgIds reviewerIds
              = reviewedPlans_queryFn (api_get(request := Inr (JArr []))) approved_first orgsMap
                  orgIds reviewerIds)"
proof (intro conjI impI)
  assume "map_of fs ''results'' = Some (JArr ps)"
  then show "extract_plans (JObj fs) = JArr ps"
    by (rule extract_plans_results)
next
  show "extract_plans (JArr ps) = JArr ps"
    by (rule extract_plans_bare)
next
  assume w: "\<forall>request. \<exists>fs ps. api_wrapped request = Inr (JObj fs)
          \<and> map_of fs ''results'' = Some (JArr ps) \<and> api_bare request = Inr (JArr ps)"
  have same: "same_answer (api_wrapped r) (api_bare r)" for r
  proof -
    from w obtain fs' ps' where "api_wrapped r = Inr (JObj fs')"
      and "map_of fs' ''results'' = Some (JArr ps')" and "api_bare r = Inr (JArr ps')"
      by blast
    then show ?thesis
      by (rule wrapped_like_bare)
  qed
  show "pendingPlans_queryFn api_wrapped orgsMap orgIds reviewerIds
            = pendingPlans_queryFn api_bare orgsMap orgIds reviewerIds"
    by (rule pending_cong) (rule same)
  show "reviewedPlans_queryFn api_wrapped approved_first orgsMap orgIds reviewerIds
            = reviewedPlans_queryFn api_bare approved_first orgsMap orgIds reviewerIds"
    by (rule reviewed_cong) (rule same)+
next
  assume f: "api_get request = Inr resp \<and> \<not> truthy resp"
  have same: "same_answer (api_get r) ((api_get(request := Inr (JArr []))) r)" for r
    by (rule falsy_like_empty [of api_get request resp]) (simp_all add: f)
  show "pendingPlans_queryFn api_get orgsMap orgIds reviewerIds
            = pendingPlans_queryFn (api_get(request := Inr (JArr []))) orgsMap orgIds reviewerIds"
    by (rule pending_cong) (rule same)
  show "reviewedPlans_queryFn api_get approved_first orgsMap orgIds reviewerIds
            = reviewedPlans_queryFn (api_get(request := Inr (JArr []))) approved_first orgsMap
                orgIds reviewerIds"
    by (rule reviewed_cong) (rule same)+
next
  assume "orgIds \<noteq> [] \<and> reviewerIds \<noteq> [] \<and> \<not> isArray (extract_plans resp)
        \<and> api_get (plans_request ''SUBMITTED'' orgIds) = Inr resp"
  then show "settled (pendingPlans_queryFn api_get orgsMap orgIds reviewerIds) = Inr []"
    by (simp add: pending_other_shape [where api_get = api_get])
next
  assume a: "orgIds \<noteq> [] \<and> reviewerIds \<noteq> [] \<and> \<not> isArray (extract_plans resp)
        \<and> (request = plans_request ''APPROVED'' orgIds \<or> request = plans_request ''REJECTED'' orgIds)
        \<and> api_get request = Inr resp"
  then have "request = plans_request ''APPROVED'' orgIds \<or> request = plans_request ''REJECTED'' orgIds"
    by simp
  then show "settled (reviewedPlans_queryFn api_get approved_first orgsMap orgIds reviewerIds) = Inr []
          \<or> reviewedPlans_queryFn api_get approved_first orgsMap orgIds reviewerIds
              = reviewedPlans_queryFn (api_get(request := Inr (JArr []))) approved_first orgsMap
                  orgIds reviewerIds"
  proof
    assume r: "request = plans_request ''APPROVED'' orgIds"
    show ?thesis
      unfolding r
      by (rule reviewed_other_shape_approved [of orgIds reviewerIds api_get resp])
         (simp_all add: a r [symmetric])
  next
    assume r: "request = plans_request ''REJECTED'' orgIds"
    show ?thesis
      unfolding r
      by (rule reviewed_other_shape_rejected [of orgIds reviewerIds api_get resp])
         (simp_all add: a r [symmetric])
  qed
qed

theorem envelope_shapes_witness:
  "extract_plans (JObj [(''count'', JNum 1), (''results'', JArr [scenario_plan_approved])])
     = JArr [scenario_plan_approved]
   \<and> pendingPlans_queryFn wrapped_store Map.empty [3] [7]
       = pendingPlans_queryFn bare_store Map.empty [3] [7]
   \<and> reviewedPlans_queryFn wrapped_store True Map.empty [3] [7]
       = reviewedPlans_queryFn bare_store True Map.empty [3] [7]
   \<and> reviewedPlans_queryFn null_store True Map.empty [3] [7]
       = reviewedPlans_queryFn (null_store(plans_request ''APPROVED'' [3] := Inr (JArr [])))
           True Map.empty [3] [7]
   \<and> settled (pendingPlans_queryFn unrecognised_store Map.empty [3] [7]) = Inr []
   \<and> (settled (reviewedPlans_queryFn unrecognised_store True Map.empty [3] [7]) = Inr []
      \<or> reviewedPlans_queryFn unrecognised_store True Map.empty [3] [7]
          = reviewedPlans_queryFn (unrecognised_store(plans_request ''APPROVED'' [3] := Inr (JArr [])))
              True Map.empty [3] [7])"
proof -
  let ?fs = "[(''count'', JNum 1), (''results'', JArr [scenario_plan_approved])]"
  let ?ps = "[scenario_plan_approved]"
  let ?req = "plans_request ''APPROVED'' [3]"
  let ?odd = "JObj [(''count'', JNum 0)]"
  have h1: "map_of ?fs ''results'' = Some (JArr ?ps)"
    by simp
  have h2: "\<forall>request. \<exists>fs ps. wrapped_store request = Inr (JObj fs)
              \<and> map_of fs ''results'' = Some (JArr ps) \<and> bare_store request = Inr (JArr ps)"
    by (simp add: wrapped_store_def bare_store_def)
  have h3: "null_store ?req = Inr JNull \<and> \<not> truthy JNull"
    by (simp add: null_store_def)
  have h4: "[3::int] \<noteq> [] \<and> [7::int] \<noteq> [] \<and> \<not> isArray (extract_plans ?odd)
              \<and> unrecognised_store (plans_request ''SUBMITTED'' [3]) = Inr ?odd"
    by (simp add: unrecognised_store_def plans_request_def extract_plans_def opt_prop_def)
  have h5: "[3::int] \<noteq> [] \<and> [7::int] \<noteq> [] \<and> \<not> isArray (extract_plans ?odd)
              \<and> (?req = plans_request ''APPROVED'' [3] \<or> ?req = plans_request ''REJECTED'' [3])
              \<and> unrecognised_store ?req = Inr ?odd"
    by (simp add: unrecognised_store_def plans_request_def extract_plans_def opt_prop_def)
  note first = envelope_shapes [where fs = ?fs and ps = ?ps and api_wrapped = wrapped_store
      and api_bare = bare_store and orgsMap = Map.empty and orgIds = "[3]" and reviewerIds = "[7]"
      and approved_first = True and api_get = null_store and request = ?req and resp = JNull]
  note second = envelope_shapes [where fs = ?fs and ps = ?ps and api_wrapped = wrapped_store
      and api_bare = bare_store and orgsMap = Map.empty and orgIds = "[3]" and reviewerIds = "[7]"
      and approved_first = True and api_get = unrecognised_store and request = ?req and resp = ?odd]
  from first h1 have w1: "extract_plans (JObj ?fs) = JArr ?ps"
    by blast
  from first h2 have w2: "pendingPlans_queryFn wrapped_store Map.empty [3] [7]
       = pendingPlans_queryFn bare_store Map.empty [3] [7]
     \<and> reviewedPlans_queryFn wrapped_store True Map.empty [3] [7]
       = reviewedPlans_queryFn bare_store True Map.empty [3] [7]"
    by blast
  from first h3 have w3: "reviewedPlans_queryFn null_store True Map.empty [3] [7]
       = reviewedPlans_queryFn (null_store(?req := Inr (JArr []))) True Map.empty [3] [7]"
    by blast
  from second h4 have w4: "settled (pendingPlans_queryFn unrecognised_store Map.empty [3] [7]) = Inr []"
    by blast
  from second h5 have w5: "settled (reviewedPlans_queryFn unrecognised_store True Map.empty [3] [7]) = Inr []
      \<or> reviewedPlans_queryFn unrecognised_store True Map.empty [3] [7]
          = reviewedPlans_queryFn (unrecognised_store(?req := Inr (JArr []))) True Map.empty [3] [7]"
    by blast
  from w1 w2 w3 w4 w5 show ?thesis
    by blast
qed

text \<open>
  The decided-set builder does not treat every other shape as an empty list: an envelope
  without \<^verbatim>\<open>results\<close> from the approved fetch empties the whole result, and the
  submission that the rejected fetch delivered is lost with it.
\<close>

theorem envelope_other_shape_counterexample:
  "unrecognised_store (plans_request ''APPROVED'' [3]) = Inr (JObj [(''count'', JNum 0)])
   \<and> empty_approved_store (plans_request ''APPROVED'' [3]) = Inr (JArr [])
   \<and> unrecognised_store (plans_request ''REJECTED'' [3]) = empty_approved_store (plans_request ''REJECTED'' [3])
   \<and> settled (reviewedPlans_queryFn unrecognised_store True Map.empty [3] [7]) = Inr []
   \<and> settled (reviewedPlans_queryFn empty_approved_store True Map.empty [3] [7])
       = Inr [reviewed_entry Map.empty scenario_plan_stale
                (JObj [(''evaluator'', JNum 7), (''status'', JStr ''REJECTED''),
                       (''feedback'', JStr ''stale'')])]"
  by code_simp




text \<open>
  C5. A submission posts exactly one request: to \<^verbatim>\<open>/plans/{id}/approve/\<close> for
  \<^verbatim>\<open>APPROVED\<close> and to \<^verbatim>\<open>/plans/{id}/reject/\<close> for \<^verbatim>\<open>REJECTED\<close>, with the clock's
  reading as the query parameter \<^verbatim>\<open>_\<close> and the body \<^verbatim>\<open>{ status, feedback }\<close>, the feedback
  being the empty string when absent. When the request succeeds, the cached outputs of
  both builders are marked stale (whatever ids they are keyed by), the modal is closed,
  the selection cleared, the success notice set, and a timer of 3000 ms started whose
  callback clears the notice.
\<close>

theorem review_submission:
  assumes "request =
             \<lparr>url = ''/plans/'' @ js_String pid
                    @ (case outcome of APPROVED \<Rightarrow> ''/approve/'' | REJECTED \<Rightarrow> ''/reject/'')
                    @ ''?_='' @ decimal now,
              body = JObj [(''status'', JStr (status_string outcome)),
                           (''feedback'', JStr (case fb of None \<Rightarrow> [] | Some f \<Rightarrow> f))]\<rparr>"
    and "result = reviewMutation api_post message now \<lparr>planId = pid, status = outcome, feedback = fb\<rparr> st"
  shows "posts (fst result) = [request]
         \<and> (api_post request = Inr response \<longrightarrow>
               mutation_settled (fst result) = Inr response
             \<and> marked_stale (snd result) (pending_queryKey orgIds evalIds)
             \<and> marked_stale (snd result) (reviewed_queryKey orgIds evalIds)
             \<and> \<not> showReviewModal (snd result)
             \<and> selectedPlan (snd result) = JNull
             \<and> success (snd result) = Some ''Plan review submitted successfully''
             \<and> timers (snd result) = timers st @ [(3000, ClearSuccess)]
             \<and> success (run_timer ClearSuccess (snd result)) = None)"
proof -
  have req: "posts (mutationFn api_post now \<lparr>planId = pid, status = outcome, feedback = fb\<rparr>) = [request]"
    and run: "mutationFn api_post now \<lparr>planId = pid, status = outcome, feedback = fb\<rparr>
                = (case api_post request of
                     Inr response \<Rightarrow> \<lparr>posts = [request], mutation_log = [], mutation_settled = Inr response\<rparr>
                   | Inl err \<Rightarrow> \<lparr>posts = [request],
                                 mutation_log = [ConsoleError ''Review submission failed:'' err],
                                 mutation_settled = Inl err\<rparr>)"
    unfolding assms(1)
    by (cases outcome; cases fb; simp add: mutationFn_def Let_def split: sum.splits)+
  have first: "posts (fst result) = [request]"
    unfolding assms(2) by (simp add: reviewMutation_def Let_def req)
  have second: "mutation_settled (fst result) = Inr response
             \<and> marked_stale (snd result) (pending_queryKey orgIds evalIds)
             \<and> marked_stale (snd result) (reviewed_queryKey orgIds evalIds)
             \<and> \<not> showReviewModal (snd result)
             \<and> selectedPlan (snd result) = JNull
             \<and> success (snd result) = Some ''Plan review submitted successfully''
             \<and> timers (snd result) = timers st @ [(3000, ClearSuccess)]
             \<and> success (run_timer ClearSuccess (snd result)) = None"
    if ok: "api_post request = Inr response"
    unfolding assms(2)
    by (simp add: reviewMutation_def Let_def run ok onSuccess_def marked_stale_iff
        pending_queryKey_def reviewed_queryKey_def)
  from first second show ?thesis
    by blast
qed

theorem review_submission_witness:
  "posts (fst (reviewMutation accepting_endpoint (\<lambda>err. []) 1700000000000
                 \<lparr>planId = JNum 3, status = REJECTED, feedback = Some ''needs work''\<rparr>
                 (initial_state\<lparr>selectedPlan := scenario_plan_fresh, showReviewModal := True\<rparr>)))
     = [\<lparr>url = ''/plans/3/reject/?_=1700000000000'',
         body = JObj [(''status'', JStr ''REJECTED''), (''feedback'', JStr ''needs work'')]\<rparr>]
   \<and> marked_stale (snd (reviewMutation accepting_endpoint (\<lambda>err. []) 1700000000000
                 \<lparr>planId = JNum 3, status = REJECTED, feedback = Some ''needs work''\<rparr>
                 (initial_state\<lparr>selectedPlan := scenario_plan_fresh, showReviewModal := True\<rparr>)))
        (pending_queryKey [3] [7])
   \<and> timers (snd (reviewMutation accepting_endpoint (\<lambda>err. []) 1700000000000
                 \<lparr>planId = JNum 3, status = REJECTED, feedback = Some ''needs work''\<rparr>
                 (initial_state\<lparr>selectedPlan := scenario_plan_fresh, showReviewModal := True\<rparr>)))
       = [(3000, ClearSuccess)]"
proof -
  let ?st = "initial_state\<lparr>selectedPlan := scenario_plan_fresh, showReviewModal := True\<rparr>"
  let ?request = "\<lparr>url = ''/plans/3/reject/?_=1700000000000'',
         body = JObj [(''status'', JStr ''REJECTED''), (''feedback'', JStr ''needs work'')]\<rparr>"
  let ?result = "reviewMutation accepting_endpoint (\<lambda>err. []) 1700000000000
                 \<lparr>planId = JNum 3, status = REJECTED, feedback = Some ''needs work''\<rparr> ?st"
  have d: "decimal 1700000000000 = ''1700000000000''" and d3: "decimal 3 = ''3''"
    by (simp_all add: decimal.simps digit_char_def)
  have h1: "?request =
             \<lparr>url = ''/plans/'' @ js_String (JNum 3)
                    @ (case REJECTED of APPROVED \<Rightarrow> ''/approve/'' | REJECTED \<Rightarrow> ''/reject/'')
                    @ ''?_='' @ decimal 1700000000000,
              body = JObj [(''status'', JStr (status_string REJECTED)),
                           (''feedback'', JStr (case Some ''needs work'' of None \<Rightarrow> [] | Some f \<Rightarrow> f))]\<rparr>"
    by (simp add: d d3 number_string_def)
  have h2: "accepting_endpoint ?request = Inr (JObj [(''detail'', JStr ''ok'')])"
    by (simp add: accepting_endpoint_def)
  have t: "timers ?st = []"
    by (simp add: initial_state_def)
  note inst = review_submission [OF h1 refl, of accepting_endpoint "\<lambda>err. []" ?st "JObj [(''detail'', JStr ''ok'')]" "[3]" "[7]"]
  from inst have a: "posts (fst ?result) = [?request]"
    by (rule conjunct1)
  from inst h2 have b: "marked_stale (snd ?result) (pending_queryKey [3] [7])"
    and c: "timers (snd ?result) = timers ?st @ [(3000, ClearSuccess)]"
    by blast+
  from a b c t show ?thesis
    by (simp only: append_Nil simp_thms)
qed

text \<open>
  C7. When the bulk organization fetch fails during initialization, the failure is logged
  as a warning and nothing else: the dashboard is marked as checked, no error is set, no
  navigation happens and the cache stays empty. With that cache, or with any cache that
  lacks the organization's id, the name annotated by both builders for a plan of
  organization \<open>n\<close> is \<^verbatim>\<open>Organization n\<close>, and \<^verbatim>\<open>getOrganizationName\<close> shows that
  name for the builders' entries.
\<close>

theorem organization_name_fallback:
  assumes "isAuthenticated authData" and "isEvaluator (userOrganizations authData)"
    and "userOrganizations authData \<noteq> []"
    and "st = checkPermissions isEvaluator (Inr authData) (Inl orgError) initial_state"
    and "is_object plan" and "opt_prop plan ''organization'' = JNum n"
    and "orgsMap = organizationsMap st \<or> orgsMap (number_string n) = None"
  shows "isAuthChecked st \<and> \<not> isInitialLoad st \<and> error st = None \<and> navigated st = None
         \<and> logged st = [ConsoleWarn ''Failed to pre-fetch organizations:'' orgError]
         \<and> organizationsMap st = Map.empty
         \<and> organizationName_of orgsMap (JNum n) = JStr (''Organization '' @ number_string n)
         \<and> opt_prop (pending_entry orgsMap plan) ''organizationName''
             = JStr (''Organization '' @ number_string n)
         \<and> opt_prop (reviewed_entry orgsMap plan review) ''organizationName''
             = JStr (''Organization '' @ number_string n)
         \<and> getOrganizationName orgsMap (pending_entry orgsMap plan)
             = Inr (JStr (''Organization '' @ number_string n))
         \<and> getOrganizationName orgsMap (reviewed_entry orgsMap plan review)
             = Inr (JStr (''Organization '' @ number_string n))"
proof -
  have st: "st = initial_state
              \<lparr>userOrgIds := map organization (userOrganizations authData),
               currentEvaluatorIds :=
                 map id_uo (filter (\<lambda>org. role org = ''EVALUATOR'') (userOrganizations authData)),
               isEvaluatorOnly := isOnlyEvaluator (map role (userOrganizations authData)),
               logged := logged initial_state
                           @ [ConsoleWarn ''Failed to pre-fetch organizations:'' orgError],
               isAuthChecked := True, isInitialLoad := False\<rparr>"
    unfolding assms(4) using assms(1-3) by (rule checkPermissions_prefetch_fails)
  have init: "isAuthChecked st" "\<not> isInitialLoad st" "error st = None" "navigated st = None"
    "logged st = [ConsoleWarn ''Failed to pre-fetch organizations:'' orgError]"
    "organizationsMap st = Map.empty"
    unfolding st by (simp_all add: initial_state_def)
  from assms(7) init(6) have miss: "orgsMap (number_string n) = None"
    by auto
  then have name: "organizationName_of orgsMap (JNum n) = JStr (''Organization '' @ number_string n)"
    by (rule organizationName_of_miss)
  have pe: "opt_prop (pending_entry orgsMap plan) ''organizationName''
             = JStr (''Organization '' @ number_string n)"
    by (simp add: pending_entry_def opt_prop_update assms(6) name)
  have re: "opt_prop (reviewed_entry orgsMap plan review) ''organizationName''
             = JStr (''Organization '' @ number_string n)"
    by (simp add: reviewed_entry_def opt_prop_update assms(6) name)
  have gp: "getOrganizationName orgsMap (pending_entry orgsMap plan)
             = Inr (JStr (''Organization '' @ number_string n))"
    using pe by (rule getOrganizationName_annotated) (simp add: pending_entry_def)
  have gr: "getOrganizationName orgsMap (reviewed_entry orgsMap plan review)
             = Inr (JStr (''Organization '' @ number_string n))"
    using re by (rule getOrganizationName_annotated) (simp add: reviewed_entry_def)
  from init name pe re gp gr show ?thesis
    by (intro conjI)
qed

theorem organization_name_fallback_witness:
  "isAuthChecked (checkPermissions holds_evaluator_role (Inr scenario_evaluator)
       (Inl (RequestFailed (Some 500) ''Request failed with status code 500'')) initial_state)
   \<and> logged (checkPermissions holds_evaluator_role (Inr scenario_evaluator)
       (Inl (RequestFailed (Some 500) ''Request failed with status code 500'')) initial_state)
      = [ConsoleWarn ''Failed to pre-fetch organizations:''
           (RequestFailed (Some 500) ''Request failed with status code 500'')]
   \<and> getOrganizationName Map.empty (pending_entry Map.empty scenario_plan_fresh)
      = Inr (JStr ''Organization 3'')
   \<and> getOrganizationName Map.empty (reviewed_entry Map.empty scenario_plan_approved scenario_review_ok)
      = Inr (JStr ''Organization 3'')"
proof -
  let ?e = "RequestFailed (Some 500) ''Request failed with status code 500''"
  have h1: "isAuthenticated scenario_evaluator"
    and h2: "holds_evaluator_role (userOrganizations scenario_evaluator)"
    and h3: "userOrganizations scenario_evaluator \<noteq> []"
    by (simp_all add: scenario_evaluator_def holds_evaluator_role_def)
  have h5: "is_object scenario_plan_fresh" and h5': "is_object scenario_plan_approved"
    by (simp_all add: scenario_plan_fresh_def scenario_plan_approved_def)
  have h6: "opt_prop scenario_plan_fresh ''organization'' = JNum 3"
    and h6': "opt_prop scenario_plan_approved ''organization'' = JNum 3"
    by (simp_all add: scenario_plan_fresh_def scenario_plan_approved_def opt_prop_def)
  have h7: "Map.empty = organizationsMap (checkPermissions holds_evaluator_role (Inr scenario_evaluator)
              (Inl ?e) initial_state) \<or> (Map.empty :: string \<rightharpoonup> json) (number_string 3) = None"
    by simp
  have n: "number_string 3 = ''3''"
    by (simp add: number_string_def decimal.simps digit_char_def)
  note a = organization_name_fallback [where isEvaluator = holds_evaluator_role, OF h1 h2 h3 refl h5 h6 h7,
      of scenario_review_ok]
  note b = organization_name_fallback [where isEvaluator = holds_evaluator_role, OF h1 h2 h3 refl h5' h6' h7,
      of scenario_review_ok]
  from a b show ?thesis
    by (simp add: n)
qed



end
